theory Spec2Isabelle
  imports Main "HOL-Library.DAList" "HOL-Library.Word"
begin

section \<open>JavaScript string primitives used by the plugin\<close>

text \<open>
  Strings are byte lists. The plugin only uses a handful of String.prototype
  methods: \<^verbatim>\<open>includes\<close>, \<^verbatim>\<open>endsWith\<close>, \<^verbatim>\<open>replace\<close> with a string pattern
  (which rewrites the first occurrence only), \<^verbatim>\<open>split\<close> and \<^verbatim>\<open>join\<close>.
\<close>

fun startsWith :: "string \<Rightarrow> string \<Rightarrow> bool" where
  "startsWith s [] = True"
| "startsWith [] (p # ps) = False"
| "startsWith (c # cs) (p # ps) = (c = p \<and> startsWith cs ps)"

text \<open>\<^verbatim>\<open>s.includes(sub)\<close>: does \<open>sub\<close> occur somewhere inside \<open>s\<close>.\<close>

fun str_includes :: "string \<Rightarrow> string \<Rightarrow> bool" where
  "str_includes [] sub = (sub = [])"
| "str_includes (c # cs) sub = (startsWith (c # cs) sub \<or> str_includes cs sub)"

definition endsWith :: "string \<Rightarrow> string \<Rightarrow> bool" where
  "endsWith s suf = startsWith (rev s) (rev suf)"

text \<open>
  \<^verbatim>\<open>s.replace(pat, rep)\<close> with a string pattern: the leftmost occurrence of
  \<open>pat\<close> is replaced, everything else is kept; without an occurrence the
  string is returned as it is. (No replacement used by the plugin contains a
  dollar sign, so the replacement text is taken literally.)
\<close>

fun replace :: "string \<Rightarrow> string \<Rightarrow> string \<Rightarrow> string" where
  "replace [] pat rep = (if pat = [] then rep else [])"
| "replace (c # cs) pat rep =
     (if startsWith (c # cs) pat then rep @ drop (length pat) (c # cs)
      else c # replace cs pat rep)"

text \<open>
  \<^verbatim>\<open>s.split(c)\<close> for a one-character separator: the pieces between the
  separators, always at least one piece.
\<close>

fun split :: "char \<Rightarrow> string \<Rightarrow> string list" where
  "split c [] = [[]]"
| "split c (x # xs) =
     (if x = c then [] # split c xs
      else (case split c xs of p # ps \<Rightarrow> (x # p) # ps | [] \<Rightarrow> [[x]]))"

text \<open>\<^verbatim>\<open>pieces.join(glue)\<close>.\<close>

fun join :: "string \<Rightarrow> string list \<Rightarrow> string" where
  "join glue [] = []"
| "join glue [p] = p"
| "join glue (p # q # ps) = p @ glue @ join glue (q # ps)"

text \<open>
  A JavaScript number, as far as the plugin uses one: it is interpolated into a
  template literal. \<open>Whole w\<close> is a non-negative safe integer (below 2 to the
  power 53), which is printed as its decimal numeral. Every other number (a
  negative one, a fraction, a larger magnitude, which is printed with an exponent
  from 10 to the power 21 on, NaN, an infinity) is held as \<open>Other s\<close>, by the
  text \<open>s\<close> that interpolation prints for it.
\<close>

datatype jsNumber = Whole "53 word" | Other string

definition digitChar :: "nat \<Rightarrow> char" where
  "digitChar d = ''0123456789'' ! d"

fun digits :: "nat \<Rightarrow> string" where
  "digits n = (if n < 10 then [digitChar n]
               else digits (n div 10) @ [digitChar (n mod 10)])"

declare digits.simps [simp del]

fun numberToString :: "jsNumber \<Rightarrow> string" where
  "numberToString (Whole w) = digits (unat w)"
| "numberToString (Other s) = s"



section \<open>Header fields\<close>

text \<open>
  A JavaScript object with string values, as the plugin uses it for headers: its
  properties in the order in which the object enumerates them. The keys of an
  object are distinct, and assigning to a property replaces its value in place
  or adds the property at the end.

  The \<^verbatim>\<open>Headers\<close> object a \<^verbatim>\<open>Response\<close> builds from such an object: every
  property becomes a header. Surrounding whitespace is stripped from the value;
  the name must be a token and the value must hold no NUL, line feed or carriage
  return and no character beyond U+00FF (with strings as UTF-8 bytes: no byte
  from 0xC4 on), or the constructor throws TypeError. Names are compared without
  regard to the case of ASCII letters: \<^verbatim>\<open>get\<close> joins the values of all headers
  of that name, in order, with a comma and a space. The header list keeps the
  names as written.
\<close>

type_synonym jsObject = "(string, string) alist"

definition lowerChar :: "char \<Rightarrow> char" where
  "lowerChar c =
     (case map_of (zip ''ABCDEFGHIJKLMNOPQRSTUVWXYZ'' ''abcdefghijklmnopqrstuvwxyz'') c of
        None \<Rightarrow> c
      | Some d \<Rightarrow> d)"

definition lower :: "string \<Rightarrow> string" where
  "lower s = map lowerChar s"

definition isTokenChar :: "char \<Rightarrow> bool" where
  "isTokenChar c =
     (let n = (of_char c :: nat)
      in (48 \<le> n \<and> n \<le> 57) \<or> (65 \<le> n \<and> n \<le> 90) \<or> (97 \<le> n \<and> n \<le> 122) \<or>
         n \<in> {33, 35, 36, 37, 38, 39, 42, 43, 45, 46, 94, 95, 96, 124, 126})"

definition isHeaderName :: "string \<Rightarrow> bool" where
  "isHeaderName name = (name \<noteq> [] \<and> list_all isTokenChar name)"

definition isHttpWhitespace :: "char \<Rightarrow> bool" where
  "isHttpWhitespace c = ((of_char c :: nat) \<in> {9, 10, 13, 32})"

definition normalizeValue :: "string \<Rightarrow> string" where
  "normalizeValue v = rev (dropWhile isHttpWhitespace (rev (dropWhile isHttpWhitespace v)))"

definition isHeaderValue :: "string \<Rightarrow> bool" where
  "isHeaderValue v = list_all (\<lambda>c. (of_char c :: nat) \<notin> {0, 10, 13} \<and> (of_char c :: nat) < 196) v"

text \<open>
  What can be thrown: the plugin's own NotFoundError, a failure of the file
  system, node-cache's error for a full cache, the URIError of \<^verbatim>\<open>decodeURI\<close>, and
  the TypeError of the \<^verbatim>\<open>Response\<close> constructor.
\<close>

datatype error = NotFoundError | FsError | CacheFullError | URIError | TypeError

text \<open>
  The header list of an object, each value normalised, and the constructor, which
  validates that list.
\<close>

definition headerList :: "jsObject \<Rightarrow> (string \<times> string) list" where
  "headerList obj = map (\<lambda>(name, v). (name, normalizeValue v)) (DAList.impl_of obj)"

definition newHeaders :: "jsObject \<Rightarrow> error + (string \<times> string) list" where
  "newHeaders obj =
     (if list_all (\<lambda>(name, v). isHeaderName name \<and> isHeaderValue v) (headerList obj)
      then Inr (headerList obj)
      else Inl TypeError)"

text \<open>\<^verbatim>\<open>headers.get(name)\<close>.\<close>

definition headersGet :: "(string \<times> string) list \<Rightarrow> string \<Rightarrow> string option" where
  "headersGet hl name =
     (case map snd (filter (\<lambda>(n, v). lower n = lower name) hl) of
        [] \<Rightarrow> None
      | v # vs \<Rightarrow> Some (join '', '' (v # vs)))"

section \<open>Platform: path separator and \<^verbatim>\<open>path.join\<close>\<close>

text \<open>
  The plugin imports \<^verbatim>\<open>sep\<close> and \<^verbatim>\<open>join\<close> from Node's \<^verbatim>\<open>path\<close> module. On POSIX
  the separator is the slash, on Windows the backslash; \<^verbatim>\<open>join\<close> is only called
  when the separator is the slash, so only the POSIX variant is needed.
\<close>

datatype platform = Posix | Win32

fun sepChar :: "platform \<Rightarrow> char" where
  "sepChar Posix = CHR ''/''"
| "sepChar Win32 = CHR 0x5C"

definition sep :: "platform \<Rightarrow> string" where
  "sep plat = [sepChar plat]"

definition URL_PATH_SEP :: string where
  "URL_PATH_SEP = ''/''"

definition isFSSepUnsafe :: "platform \<Rightarrow> bool" where
  "isFSSepUnsafe plat = (sep plat \<noteq> URL_PATH_SEP)"

text \<open>
  Node's \<^verbatim>\<open>normalizeString\<close> on the level of path segments: empty segments and
  \<^verbatim>\<open>.\<close> are dropped, \<^verbatim>\<open>..\<close> removes the segment before it, or is kept when
  there is none to remove and the path is relative. The second argument is the
  result so far, last segment first.
\<close>

fun normalizeSegments :: "bool \<Rightarrow> string list \<Rightarrow> string list \<Rightarrow> string list" where
  "normalizeSegments allowAboveRoot res [] = rev res"
| "normalizeSegments allowAboveRoot res (s # ss) =
     (if s = [] \<or> s = ''.'' then normalizeSegments allowAboveRoot res ss
      else if s = ''..'' then
        (case res of
           r # rs \<Rightarrow>
             if r \<noteq> ''..'' then normalizeSegments allowAboveRoot rs ss
             else if allowAboveRoot then normalizeSegments allowAboveRoot (''..'' # res) ss
             else normalizeSegments allowAboveRoot res ss
         | [] \<Rightarrow>
             if allowAboveRoot then normalizeSegments allowAboveRoot [''..''] ss
             else normalizeSegments allowAboveRoot [] ss)
      else normalizeSegments allowAboveRoot (s # res) ss)"

text \<open>\<^verbatim>\<open>path.posix.normalize\<close>.\<close>

definition normalize :: "string \<Rightarrow> string" where
  "normalize p =
     (if p = [] then ''.''
      else
        let isAbsolute = (hd p = CHR ''/'');
            trailingSeparator = (last p = CHR ''/'');
            q = join ''/'' (normalizeSegments (\<not> isAbsolute) [] (split CHR ''/'' p))
        in if q = [] then (if isAbsolute then ''/'' else if trailingSeparator then ''./'' else ''.'')
           else (if isAbsolute then ''/'' else []) @ q @ (if trailingSeparator then ''/'' else []))"

text \<open>
  \<^verbatim>\<open>path.posix.join(a, b)\<close>: the non-empty arguments are glued with a slash and
  the result is normalised; with nothing to glue the result is \<^verbatim>\<open>.\<close>.
\<close>

definition pathJoin :: "string \<Rightarrow> string \<Rightarrow> string" where
  "pathJoin a b =
     (if a = [] \<and> b = [] then ''.''
      else if a = [] then normalize b
      else if b = [] then normalize a
      else normalize (a @ ''/'' @ b))"

section \<open>\<^verbatim>\<open>decodeURI\<close>\<close>

text \<open>
  The ECMAScript built-in, on strings held as UTF-8 bytes. Every percent sign
  must be followed by two hexadecimal digits. An escaped ASCII character is
  decoded unless it is one of the reserved characters, whose escape is kept as
  written; an escaped byte with the top bit set must start a well-formed UTF-8
  sequence of escaped bytes. Anything else raises URIError, which is \<open>None\<close>
  here.
\<close>

definition hexDigit :: "char \<Rightarrow> nat option" where
  "hexDigit c =
     (let n = (of_char c :: nat)
      in if 48 \<le> n \<and> n \<le> 57 then Some (n - 48)
         else if 65 \<le> n \<and> n \<le> 70 then Some (n - 55)
         else if 97 \<le> n \<and> n \<le> 102 then Some (n - 87)
         else None)"

datatype token = Lit char | Esc nat string

fun tokens :: "string \<Rightarrow> token list option" where
  "tokens [] = Some []"
| "tokens (c # cs) =
     (if c \<noteq> CHR ''%'' then map_option (Cons (Lit c)) (tokens cs)
      else (case cs of
              a # b # rest \<Rightarrow>
                (case (hexDigit a, hexDigit b) of
                   (Some h, Some l) \<Rightarrow> map_option (Cons (Esc (16 * h + l) [c, a, b])) (tokens rest)
                 | _ \<Rightarrow> None)
            | _ \<Rightarrow> None))"

definition uriReserved :: string where
  "uriReserved = '';/?:@&=+$,#''"

definition sequenceLength :: "nat \<Rightarrow> nat" where
  "sequenceLength b =
     (if 192 \<le> b \<and> b < 224 then 2
      else if 224 \<le> b \<and> b < 240 then 3
      else if 240 \<le> b \<and> b < 248 then 4
      else 0)"

fun escaped :: "token list \<Rightarrow> nat list option" where
  "escaped [] = Some []"
| "escaped (Esc b orig # ts) = map_option (Cons b) (escaped ts)"
| "escaped (Lit c # ts) = None"

definition codePoint :: "nat list \<Rightarrow> nat" where
  "codePoint bs =
     (case bs of
        [a, b] \<Rightarrow> (a - 192) * 64 + (b - 128)
      | [a, b, c] \<Rightarrow> ((a - 224) * 64 + (b - 128)) * 64 + (c - 128)
      | [a, b, c, d] \<Rightarrow> (((a - 240) * 64 + (b - 128)) * 64 + (c - 128)) * 64 + (d - 128)
      | _ \<Rightarrow> 0)"

definition validSequence :: "nat list \<Rightarrow> bool" where
  "validSequence bs =
     (list_all (\<lambda>b. 128 \<le> b \<and> b < 192) (tl bs) \<and>
      (let v = codePoint bs
       in (length bs = 2 \<and> 128 \<le> v) \<or>
          (length bs = 3 \<and> 2048 \<le> v \<and> \<not> (55296 \<le> v \<and> v < 57344)) \<or>
          (length bs = 4 \<and> 65536 \<le> v \<and> v < 1114112)))"

function decodeTokens :: "token list \<Rightarrow> string option" where
  "decodeTokens [] = Some []"
| "decodeTokens (Lit c # ts) = map_option (Cons c) (decodeTokens ts)"
| "decodeTokens (Esc b orig # ts) =
     (if b < 128 then
        (if char_of b \<in> set uriReserved then map_option ((@) orig) (decodeTokens ts)
         else map_option (Cons (char_of b)) (decodeTokens ts))
      else
        (let n = sequenceLength b
         in if n = 0 then None
            else (case escaped (take (n - 1) ts) of
                    None \<Rightarrow> None
                  | Some bs \<Rightarrow>
                      if length bs = n - 1 \<and> validSequence (b # bs)
                      then map_option ((@) (map char_of (b # bs))) (decodeTokens (drop (n - 1) ts))
                      else None)))"
  by pat_completeness auto
termination
  by (relation "measure length") auto

definition decodeURI :: "string \<Rightarrow> string option" where
  "decodeURI s = (case tokens s of None \<Rightarrow> None | Some ts \<Rightarrow> decodeTokens ts)"

section \<open>Data model\<close>

text \<open>
  The options of \<^verbatim>\<open>staticPlugin\<close>. An ignore rule is a string or a RegExp; of a
  RegExp only its \<^verbatim>\<open>test\<close> method is used, so it is held as a predicate.
  \<open>resolve\<close> is the value the configured resolve function returns when it is
  called without arguments (the working directory). For \<open>maxAge\<close>, \<open>None\<close> is
  \<^verbatim>\<open>null\<close>. The directive is one of the eight literals of its type.
\<close>

datatype ignoreRule = Literal string | RegExp "string \<Rightarrow> bool"

datatype directive =
  Public | Private | MustRevalidate | NoCache | NoStore | NoTransform | ProxyRevalidate | Immutable

fun directiveText :: "directive \<Rightarrow> string" where
  "directiveText Public = ''public''"
| "directiveText Private = ''private''"
| "directiveText MustRevalidate = ''must-revalidate''"
| "directiveText NoCache = ''no-cache''"
| "directiveText NoStore = ''no-store''"
| "directiveText NoTransform = ''no-transform''"
| "directiveText ProxyRevalidate = ''proxy-revalidate''"
| "directiveText Immutable = ''immutable''"

record config =
  assets :: string
  prefix :: string
  staticLimit :: int
  alwaysStatic :: bool
  ignorePatterns :: "ignoreRule list"
  noExtension :: bool
  enableDecodeURI :: bool
  resolve :: string
  headers :: jsObject
  noCache :: bool
  maxAge :: "jsNumber option"
  directive :: directive
  indexHTML :: bool

text \<open>
  What a call without an options object yields: the default object of the
  parameter, completed by the defaults of the destructuring pattern.
  \<open>nodeEnvProduction\<close> is \<^verbatim>\<open>process.env.NODE_ENV === 'production'\<close>.
\<close>

definition defaultConfig :: "bool \<Rightarrow> string \<Rightarrow> config" where
  "defaultConfig nodeEnvProduction cwd =
     \<lparr> assets = ''public'', prefix = ''/public'', staticLimit = 1024,
       alwaysStatic = nodeEnvProduction, ignorePatterns = [], noExtension = False,
       enableDecodeURI = False, resolve = cwd, headers = DAList.empty, noCache = False,
       maxAge = Some (Whole 86400), directive = Public, indexHTML = True \<rparr>"

text \<open>
  The rules that apply when an options object is passed without
  \<^verbatim>\<open>ignorePatterns\<close>.
\<close>

definition defaultIgnorePatterns :: "ignoreRule list" where
  "defaultIgnorePatterns = [Literal ''.DS_Store'', Literal ''.git'', Literal ''.env'']"

text \<open>
  The file system as the handlers query it. Each operation is its own oracle,
  so that a file may be there for one operation and gone for the next.
  \<open>fingerprint\<close> is what the ETag generator derives from a file.
\<close>

record stats =
  isDirectory :: bool
  mtime :: nat

record fsys =
  stat :: "string \<Rightarrow> stats option"
  readFile :: "string \<Rightarrow> string option"
  fingerprint :: "string \<Rightarrow> string option"

record request =
  pathname :: string
  ifNoneMatch :: "string option"
  ifModifiedSince :: "nat option"

text \<open>A response: its status, the header list of its \<^verbatim>\<open>Headers\<close> object, its body.\<close>

record response =
  status :: nat
  responseHeaders :: "(string \<times> string) list"
  body :: "string option"

text \<open>\<^verbatim>\<open>new Response(body, { status, headers })\<close>.\<close>

definition newResponse :: "nat \<Rightarrow> jsObject \<Rightarrow> string option \<Rightarrow> error + response" where
  "newResponse st obj b =
     (case newHeaders obj of
        Inl e \<Rightarrow> Inl e
      | Inr hl \<Rightarrow> Inr \<lparr> status = st, responseHeaders = hl, body = b \<rparr>)"

text \<open>
  A handler is a closure over the file it serves. \<open>StaticNoCache file\<close> and
  \<open>StaticCached etag key file\<close> are the two closures of static mode, \<open>key\<close>
  being the third argument the closure hands to \<^verbatim>\<open>isCached\<close>; \<open>Wildcard\<close> is the
  handler of dynamic mode.
\<close>

datatype handler = StaticNoCache string | StaticCached string string string | Wildcard

record route =
  httpMethod :: string
  path :: string
  handler :: handler

subsection \<open>The three caches\<close>

text \<open>
  node-cache instances with \<^verbatim>\<open>maxKeys: 250\<close>. \<^verbatim>\<open>get\<close> yields the stored value or
  \<^verbatim>\<open>undefined\<close>; \<^verbatim>\<open>set\<close> throws when the cache already holds \<^verbatim>\<open>maxKeys\<close> keys.
  Expiry happens between requests: a request starts from whatever entries are
  alive at that moment.
\<close>

type_synonym 'v cache = "(string \<times> 'v) list"

definition maxKeys :: nat where
  "maxKeys = 250"

definition cacheGet :: "'v cache \<Rightarrow> string \<Rightarrow> 'v option" where
  "cacheGet c k = map_of c k"

definition cacheSet :: "'v cache \<Rightarrow> string \<Rightarrow> 'v \<Rightarrow> error + 'v cache" where
  "cacheSet c k v = (if maxKeys \<le> length c then Inl CacheFullError else Inr (AList.update k v c))"

record caches =
  statCache :: "stats cache"
  fileCache :: "string cache"
  htmlCache :: "bool cache"

subsection \<open>The cache module\<close>

text \<open>
  Modelled from the spec: \<^verbatim>\<open>generateETag\<close> of the module \<^verbatim>\<open>./cache\<close>, whose
  source is not part of the files at hand. The spec gives it as a deterministic
  fingerprint of the file; computing it reads the file and so can fail.
\<close>

definition generateETag :: "fsys \<Rightarrow> string \<Rightarrow> error + string" where
  "generateETag fs file = (case fingerprint fs file of None \<Rightarrow> Inl FsError | Some e \<Rightarrow> Inr e)"

text \<open>
  Modelled from the spec: \<^verbatim>\<open>isCached\<close> of the module \<^verbatim>\<open>./cache\<close>, whose source is
  not part of the files at hand. The evaluator of the specification is true if
  the request carries an If-None-Match equal to the ETag; a request with a
  stale If-None-Match is answered in full; a request without If-None-Match is
  not modified if it carries an If-Modified-Since at or after the last-modified
  time of the file named by the key at the time of the check; it is false
  otherwise, also when there is no validator at all. So If-None-Match decides
  when it is there, and If-Modified-Since is consulted when it is not. (Where
  the evaluator is described, the second case is introduced by a bare
  \<^verbatim>\<open>else\<close>; the testable properties settle the one case where that matters, a
  stale If-None-Match next to an If-Modified-Since.)
\<close>

definition isCached :: "fsys \<Rightarrow> request \<Rightarrow> string \<Rightarrow> string \<Rightarrow> bool" where
  "isCached fs req etag key =
     (case ifNoneMatch req of
        Some tag \<Rightarrow> tag = etag
      | None \<Rightarrow>
          (case ifModifiedSince req of
             None \<Rightarrow> False
           | Some t \<Rightarrow> (case stat fs key of None \<Rightarrow> False | Some st \<Rightarrow> mtime st \<le> t)))"

section \<open>The plugin\<close>

subsection \<open>Ignore rules\<close>

text \<open>
  \<^verbatim>\<open>shouldIgnore\<close> returns what \<^verbatim>\<open>Array.prototype.find\<close> returns, and its callers
  test that value for truthiness: a found RegExp or non-empty string counts, the
  empty string and \<^verbatim>\<open>undefined\<close> do not. A string rule is tried with
  \<^verbatim>\<open>pattern.includes(file)\<close>.
\<close>

fun ruleMatches :: "ignoreRule \<Rightarrow> string \<Rightarrow> bool" where
  "ruleMatches (Literal pattern) file = str_includes pattern file"
| "ruleMatches (RegExp test) file = test file"

fun truthy :: "ignoreRule \<Rightarrow> bool" where
  "truthy (Literal pattern) = (pattern \<noteq> [])"
| "truthy (RegExp test) = True"

definition shouldIgnore :: "config \<Rightarrow> string \<Rightarrow> bool" where
  "shouldIgnore cfg file =
     (if ignorePatterns cfg = [] then False
      else (case find (\<lambda>pattern. ruleMatches pattern file) (ignorePatterns cfg) of
              None \<Rightarrow> False
            | Some pattern \<Rightarrow> truthy pattern))"

subsection \<open>Responses\<close>

text \<open>
  \<^verbatim>\<open>empty(status, headers)\<close> of the host framework: a \<^verbatim>\<open>Response\<close> with that
  status, those headers and no body.
\<close>

definition empty :: "nat \<Rightarrow> jsObject \<Rightarrow> error + response" where
  "empty st hs = newResponse st hs None"

text \<open>\<^verbatim>\<open>new Response(bytes, { headers })\<close>: status 200.\<close>

definition fullResponse :: "jsObject \<Rightarrow> string \<Rightarrow> error + response" where
  "fullResponse hs bytes = newResponse 200 hs (Some bytes)"

text \<open>
  The body shared by the two closures of static mode without caching and by the
  \<^verbatim>\<open>noCache\<close> branch of the wildcard handler.
\<close>

definition plainResponse :: "config \<Rightarrow> fsys \<Rightarrow> string \<Rightarrow> error + response" where
  "plainResponse cfg fs file =
     (case readFile fs file of
        None \<Rightarrow> Inl FsError
      | Some fileBuffer \<Rightarrow> fullResponse (headers cfg) fileBuffer)"

text \<open>
  The object \<^verbatim>\<open>responseHeaders\<close>: a copy of the configured headers with \<^verbatim>\<open>Etag\<close>
  and \<^verbatim>\<open>Cache-Control\<close> assigned, the latter extended by the max-age unless that
  is \<^verbatim>\<open>null\<close>.
\<close>

definition cachingHeaders :: "config \<Rightarrow> string \<Rightarrow> jsObject" where
  "cachingHeaders cfg etag =
     (let h1 = DAList.update ''Etag'' etag (headers cfg);
          h2 = DAList.update ''Cache-Control'' (directiveText (directive cfg)) h1
      in case maxAge cfg of
           None \<Rightarrow> h2
         | Some n \<Rightarrow>
             DAList.update ''Cache-Control''
               (directiveText (directive cfg) @ '', max-age='' @ numberToString n) h2)"

text \<open>
  The conditional part, which the source writes out three times: ask
  \<^verbatim>\<open>isCached\<close> with the given key; answer 304 with the configured headers, or
  build \<^verbatim>\<open>responseHeaders\<close>, read the file and send it.
\<close>

definition cachedResponse ::
    "config \<Rightarrow> fsys \<Rightarrow> request \<Rightarrow> string \<Rightarrow> string \<Rightarrow> string \<Rightarrow> error + response" where
  "cachedResponse cfg fs req etag key file =
     (if isCached fs req etag key then empty 304 (headers cfg)
      else
        let responseHeaders = cachingHeaders cfg etag
        in (case readFile fs file of
              None \<Rightarrow> Inl FsError
            | Some fileBuffer \<Rightarrow> fullResponse responseHeaders fileBuffer))"

subsection \<open>Static mode\<close>

definition mountPrefix :: "config \<Rightarrow> string" where
  "mountPrefix cfg = (if prefix cfg = URL_PATH_SEP then [] else prefix cfg)"

definition assetsDir :: "config \<Rightarrow> platform \<Rightarrow> string" where
  "assetsDir cfg plat =
     (if take 1 (assets cfg) = sep plat then assets cfg
      else resolve cfg @ sep plat @ assets cfg)"

definition relativePath :: "config \<Rightarrow> platform \<Rightarrow> string \<Rightarrow> string" where
  "relativePath cfg plat absolutePath =
     (let rel = replace absolutePath (assetsDir cfg plat) []
      in if noExtension cfg then join ''.'' (butlast (split CHR ''.'' rel)) else rel)"

definition pathName :: "config \<Rightarrow> platform \<Rightarrow> string \<Rightarrow> string" where
  "pathName cfg plat rel =
     (if isFSSepUnsafe plat
      then mountPrefix cfg @ join URL_PATH_SEP (split (sepChar plat) rel)
      else pathJoin (mountPrefix cfg) rel)"

text \<open>The one or two routes pushed for a file in one turn of the loop.\<close>

definition fileRoutes :: "config \<Rightarrow> platform \<Rightarrow> string \<Rightarrow> string \<Rightarrow> route list" where
  "fileRoutes cfg plat absolutePath etag =
     (let p = pathName cfg plat (relativePath cfg plat absolutePath)
      in \<lparr> httpMethod = ''GET'', path = p,
           handler = (if noCache cfg then StaticNoCache absolutePath
                      else StaticCached etag absolutePath absolutePath) \<rparr>
         # (if indexHTML cfg \<and> endsWith p ''/index.html''
            then [\<lparr> httpMethod = ''GET'', path = replace p ''/index.html'' [],
                    handler = (if noCache cfg then StaticNoCache absolutePath
                               else StaticCached etag p absolutePath) \<rparr>]
            else []))"

text \<open>
  The loop over the enumerated files. The ETag of every file that is not
  skipped is computed while the routes are built; a failure there rejects the
  whole call.
\<close>

fun staticRoutes :: "config \<Rightarrow> platform \<Rightarrow> fsys \<Rightarrow> string list \<Rightarrow> error + route list" where
  "staticRoutes cfg plat fs [] = Inr []"
| "staticRoutes cfg plat fs (absolutePath # files) =
     (if absolutePath = [] \<or> shouldIgnore cfg absolutePath then staticRoutes cfg plat fs files
      else (case generateETag fs absolutePath of
              Inl e \<Rightarrow> Inl e
            | Inr etag \<Rightarrow>
                (case staticRoutes cfg plat fs files of
                   Inl e \<Rightarrow> Inl e
                 | Inr routes \<Rightarrow> Inr (fileRoutes cfg plat absolutePath etag @ routes))))"

subsection \<open>Dynamic mode\<close>

definition fileExists :: "fsys \<Rightarrow> string \<Rightarrow> bool" where
  "fileExists fs p = (stat fs p \<noteq> None)"

text \<open>The stat of the requested path, from the cache or from the file system.\<close>

definition resolveStatus :: "fsys \<Rightarrow> caches \<Rightarrow> string \<Rightarrow> caches \<times> (error + stats)" where
  "resolveStatus fs cs p =
     (case cacheGet (statCache cs) p of
        Some st \<Rightarrow> (cs, Inr st)
      | None \<Rightarrow>
          (case stat fs p of
             None \<Rightarrow> (cs, Inl FsError)
           | Some st \<Rightarrow>
               (case cacheSet (statCache cs) p st of
                  Inl e \<Rightarrow> (cs, Inl e)
                | Inr c \<Rightarrow> (cs\<lparr>statCache := c\<rparr>, Inr st))))"

text \<open>
  The file to serve for the path. A cached entry is used when it is a non-empty
  string. Otherwise a directory resolves to its \<^verbatim>\<open>index.html\<close>, when indexing is
  on and the file is known or found to exist, and the resolution is stored
  (twice: once in the branch and once after it); anything else resolves to the
  path itself. The index-existence cache is only read: the two places that
  would write it test a variable for \<^verbatim>\<open>undefined\<close> that holds a boolean by then.
\<close>

definition resolveFilePath ::
    "config \<Rightarrow> platform \<Rightarrow> fsys \<Rightarrow> caches \<Rightarrow> string \<Rightarrow> stats \<Rightarrow> caches \<times> (error + string)" where
  "resolveFilePath cfg plat fs cs p st =
     (let cached = cacheGet (fileCache cs) p
      in if cached \<noteq> None \<and> cached \<noteq> Some [] then (cs, Inr (the cached))
         else if isDirectory st then
           (let index = p @ sep plat @ ''index.html''
            in if indexHTML cfg \<and>
                  (case cacheGet (htmlCache cs) index of
                     Some known \<Rightarrow> known
                   | None \<Rightarrow> fileExists fs index)
               then (case cacheSet (fileCache cs) p index of
                       Inl e \<Rightarrow> (cs, Inl e)
                     | Inr c \<Rightarrow>
                         (case cacheSet c p index of
                            Inl e \<Rightarrow> (cs\<lparr>fileCache := c\<rparr>, Inl e)
                          | Inr c' \<Rightarrow> (cs\<lparr>fileCache := c'\<rparr>, Inr index)))
               else (cs, Inl NotFoundError))
         else
           (let filePath = (case cached of None \<Rightarrow> p | Some f \<Rightarrow> f)
            in case cacheSet (fileCache cs) p filePath of
                 Inl e \<Rightarrow> (cs, Inl e)
               | Inr c \<Rightarrow> (cs\<lparr>fileCache := c\<rparr>, Inr filePath)))"

text \<open>What follows the resolution: the full file, or the ETag and the conditional part.\<close>

definition serveFile :: "config \<Rightarrow> fsys \<Rightarrow> request \<Rightarrow> string \<Rightarrow> string \<Rightarrow> error + response" where
  "serveFile cfg fs req p filePath =
     (if noCache cfg then plainResponse cfg fs filePath
      else (case generateETag fs filePath of
              Inl e \<Rightarrow> Inl e
            | Inr etag \<Rightarrow> cachedResponse cfg fs req etag p filePath))"

text \<open>
  The \<^verbatim>\<open>try\<close> block: first the steps that lead from the path to the file to
  serve, then the response for that file. The conditional part is handed the
  requested path as its key.
\<close>

definition resolveRequest ::
    "config \<Rightarrow> platform \<Rightarrow> fsys \<Rightarrow> caches \<Rightarrow> string \<Rightarrow> caches \<times> (error + string)" where
  "resolveRequest cfg plat fs cs p =
     (case resolveStatus fs cs p of
        (cs1, Inl e) \<Rightarrow> (cs1, Inl e)
      | (cs1, Inr st) \<Rightarrow>
          if \<not> indexHTML cfg \<and> isDirectory st then (cs1, Inl NotFoundError)
          else resolveFilePath cfg plat fs cs1 p st)"

definition tryBlock ::
    "config \<Rightarrow> platform \<Rightarrow> fsys \<Rightarrow> caches \<Rightarrow> request \<Rightarrow> string \<Rightarrow> caches \<times> (error + response)" where
  "tryBlock cfg plat fs cs req p =
     (case resolveRequest cfg plat fs cs p of
        (cs2, Inl e) \<Rightarrow> (cs2, Inl e)
      | (cs2, Inr filePath) \<Rightarrow> (cs2, serveFile cfg fs req p filePath))"

text \<open>The file-system path a request is mapped to, or URIError.\<close>

definition requestPath :: "config \<Rightarrow> platform \<Rightarrow> request \<Rightarrow> string option" where
  "requestPath cfg plat req =
     (let urlPath = pathname req;
          wildcardPath = replace urlPath (mountPrefix cfg) [];
          raw = assets cfg @ wildcardPath
      in case (if enableDecodeURI cfg then decodeURI raw else Some raw) of
           None \<Rightarrow> None
         | Some p \<Rightarrow> Some (if isFSSepUnsafe plat then replace p URL_PATH_SEP (sep plat) else p))"

definition wildcardHandler ::
    "config \<Rightarrow> platform \<Rightarrow> fsys \<Rightarrow> caches \<Rightarrow> request \<Rightarrow> caches \<times> (error + response)" where
  "wildcardHandler cfg plat fs cs req =
     (case requestPath cfg plat req of
        None \<Rightarrow> (cs, Inl URIError)
      | Some p \<Rightarrow>
          if shouldIgnore cfg p then (cs, Inl NotFoundError)
          else (case tryBlock cfg plat fs cs req p of
                  (cs', Inl e) \<Rightarrow> (cs', Inl NotFoundError)
                | (cs', Inr r) \<Rightarrow> (cs', Inr r)))"

subsection \<open>Running a handler, and the plugin itself\<close>

fun run ::
    "config \<Rightarrow> platform \<Rightarrow> fsys \<Rightarrow> caches \<Rightarrow> handler \<Rightarrow> request \<Rightarrow> caches \<times> (error + response)" where
  "run cfg plat fs cs (StaticNoCache file) req = (cs, plainResponse cfg fs file)"
| "run cfg plat fs cs (StaticCached etag key file) req = (cs, cachedResponse cfg fs req etag key file)"
| "run cfg plat fs cs Wildcard req = wildcardHandler cfg plat fs cs req"

text \<open>
  \<open>envProduction\<close> is \<^verbatim>\<open>process.env.ENV === 'production'\<close>, \<open>files\<close> is what
  \<^verbatim>\<open>listFiles\<close> returned, and \<open>fs\<close> is the file system while the routes are
  built. The guard against a second wildcard route looks at the route list of
  this very call.
\<close>

definition wildcardRoute :: "config \<Rightarrow> route" where
  "wildcardRoute cfg = \<lparr> httpMethod = ''GET'', path = mountPrefix cfg @ ''/*'', handler = Wildcard \<rparr>"

definition staticPlugin ::
    "config \<Rightarrow> platform \<Rightarrow> bool \<Rightarrow> fsys \<Rightarrow> string list \<Rightarrow> error + route list" where
  "staticPlugin cfg plat envProduction fs files =
     (if alwaysStatic cfg \<or> (envProduction \<and> int (length files) \<le> staticLimit cfg)
      then staticRoutes cfg plat fs files
      else
        let routes = [];
            wildcardExists =
              list_ex (\<lambda>r. path r = mountPrefix cfg @ ''/*'' \<and> httpMethod r = ''GET'') routes
        in Inr (if \<not> wildcardExists then routes @ [wildcardRoute cfg] else routes))"

subsection \<open>Calling the plugin\<close>

text \<open>
  The environment variables the plugin reads, and the options object as the
  caller writes it: a property that is left out (or \<^verbatim>\<open>undefined\<close>) is \<open>None\<close>.
  For \<open>maxAgeOpt\<close>, \<open>Some None\<close> is an explicit \<^verbatim>\<open>null\<close>. \<open>resolveOpt\<close> is what
  the passed resolve function returns without arguments.
\<close>

record processEnv =
  NODE_ENV :: "string option"
  ENV :: "string option"

record options =
  assetsOpt :: "string option"
  prefixOpt :: "string option"
  staticLimitOpt :: "int option"
  alwaysStaticOpt :: "bool option"
  ignorePatternsOpt :: "ignoreRule list option"
  noExtensionOpt :: "bool option"
  enableDecodeURIOpt :: "bool option"
  resolveOpt :: "string option"
  headersOpt :: "jsObject option"
  noCacheOpt :: "bool option"
  maxAgeOpt :: "jsNumber option option"
  directiveOpt :: "directive option"
  indexHTMLOpt :: "bool option"

text \<open>
  The default value of the parameter, used when the plugin is called without an
  argument: it sets neither \<^verbatim>\<open>maxAge\<close> nor \<^verbatim>\<open>directive\<close>, and an empty rule list.
\<close>

definition defaultOptions :: "processEnv \<Rightarrow> string \<Rightarrow> options" where
  "defaultOptions env cwd =
     \<lparr> assetsOpt = Some ''public'', prefixOpt = Some ''/public'', staticLimitOpt = Some 1024,
       alwaysStaticOpt = Some (NODE_ENV env = Some ''production''), ignorePatternsOpt = Some [],
       noExtensionOpt = Some False, enableDecodeURIOpt = Some False, resolveOpt = Some cwd,
       headersOpt = Some DAList.empty, noCacheOpt = Some False, maxAgeOpt = None, directiveOpt = None,
       indexHTMLOpt = Some True \<rparr>"

text \<open>The destructuring pattern: each property that is left out takes its default.\<close>

definition orDefault :: "'a option \<Rightarrow> 'a \<Rightarrow> 'a" where
  "orDefault v d = (case v of None \<Rightarrow> d | Some x \<Rightarrow> x)"

definition withDefaults :: "processEnv \<Rightarrow> string \<Rightarrow> options \<Rightarrow> config" where
  "withDefaults env cwd opts =
     \<lparr> assets = orDefault (assetsOpt opts) ''public'',
       prefix = orDefault (prefixOpt opts) ''/public'',
       staticLimit = orDefault (staticLimitOpt opts) 1024,
       alwaysStatic = orDefault (alwaysStaticOpt opts) (NODE_ENV env = Some ''production''),
       ignorePatterns = orDefault (ignorePatternsOpt opts) defaultIgnorePatterns,
       noExtension = orDefault (noExtensionOpt opts) False,
       enableDecodeURI = orDefault (enableDecodeURIOpt opts) False,
       resolve = orDefault (resolveOpt opts) cwd,
       headers = orDefault (headersOpt opts) DAList.empty,
       noCache = orDefault (noCacheOpt opts) False,
       maxAge = orDefault (maxAgeOpt opts) (Some (Whole 86400)),
       directive = orDefault (directiveOpt opts) Public,
       indexHTML = orDefault (indexHTMLOpt opts) True \<rparr>"

text \<open>
  A call of the exported function: \<open>arg\<close> is the options object, or \<open>None\<close> for a
  call without one; \<open>cwd\<close> is the working directory, which \<^verbatim>\<open>path.resolve\<close>
  returns.
\<close>

definition callStaticPlugin ::
    "processEnv \<Rightarrow> string \<Rightarrow> platform \<Rightarrow> options option \<Rightarrow> fsys \<Rightarrow> string list
       \<Rightarrow> error + route list" where
  "callStaticPlugin env cwd plat arg fs files =
     staticPlugin (withDefaults env cwd (orDefault arg (defaultOptions env cwd))) plat
       (ENV env = Some ''production'') fs files"

section \<open>Example inputs\<close>

text \<open>
  A small asset tree under \<^verbatim>\<open>/srv/public\<close>, queried with absolute paths while
  routes are built and with paths relative to the working directory \<^verbatim>\<open>/srv\<close> by
  the wildcard handler. \<^verbatim>\<open>html\<close> and \<^verbatim>\<open>empty\<close> are directories last changed at
  time 40; \<^verbatim>\<open>html/index.html\<close> was last changed at time 100 and \<^verbatim>\<open>empty\<close> has no
  index file. \<^verbatim>\<open>missing\<close> does not exist, \<^verbatim>\<open>locked\<close> exists but cannot be read, and
  \<^verbatim>\<open>vanishing\<close> is deleted after its ETag was computed. Every other path is a
  plain file last changed at time 50.
\<close>

definition demoStat :: "string \<Rightarrow> stats option" where
  "demoStat p =
     (if p \<in> {''public/html'', ''/srv/public/html'', ''public/empty''}
      then Some \<lparr> isDirectory = True, mtime = 40 \<rparr>
      else if p \<in> {''public/html/index.html'', ''/srv/public/html/index.html''}
      then Some \<lparr> isDirectory = False, mtime = 100 \<rparr>
      else if p \<in> {''public/missing'', ''public/empty/index.html'', ''/public/html/index.html''}
      then None
      else Some \<lparr> isDirectory = False, mtime = 50 \<rparr>)"

definition demoFs :: fsys where
  "demoFs =
     \<lparr> stat = demoStat,
       readFile = (\<lambda>p. if p \<in> {''public/missing'', ''public/locked'', ''public/vanishing''}
                       then None else Some (''content of '' @ p)),
       fingerprint = (\<lambda>p. if p \<in> {''public/missing'', ''public/locked''}
                          then None else Some (''etag of '' @ p)) \<rparr>"

definition noCaches :: caches where
  "noCaches = \<lparr> statCache = [], fileCache = [], htmlCache = [] \<rparr>"

definition demoConfig :: config where
  "demoConfig = defaultConfig False ''/srv''"

definition get :: "string \<Rightarrow> request" where
  "get p = \<lparr> pathname = p, ifNoneMatch = None, ifModifiedSince = None \<rparr>"

text \<open>The empty options object, and an environment without the two variables.\<close>

definition noOptions :: options where
  "noOptions =
     \<lparr> assetsOpt = None, prefixOpt = None, staticLimitOpt = None, alwaysStaticOpt = None,
       ignorePatternsOpt = None, noExtensionOpt = None, enableDecodeURIOpt = None,
       resolveOpt = None, headersOpt = None, noCacheOpt = None, maxAgeOpt = None,
       directiveOpt = None, indexHTMLOpt = None \<rparr>"

definition noEnv :: processEnv where
  "noEnv = \<lparr> NODE_ENV = None, ENV = None \<rparr>"

section \<open>Evaluation on concrete inputs\<close>

lemma digits_small: "n < 10 \<Longrightarrow> digits n = [digitChar n]"
  by (simp add: digits.simps)

lemma digits_large: "\<not> n < 10 \<Longrightarrow> digits n = digits (n div 10) @ [digitChar (n mod 10)]"
  by (subst digits.simps) simp

lemmas string_defs = endsWith_def digits_small digits_large digitChar_def

lemmas platform_defs = sep_def URL_PATH_SEP_def isFSSepUnsafe_def normalize_def pathJoin_def

lemmas static_defs = staticPlugin_def wildcardRoute_def fileRoutes_def pathName_def relativePath_def
  assetsDir_def mountPrefix_def shouldIgnore_def generateETag_def

lemmas dynamic_defs = wildcardHandler_def requestPath_def tryBlock_def resolveRequest_def
  resolveStatus_def resolveFilePath_def serveFile_def fileExists_def cacheGet_def cacheSet_def maxKeys_def

lemmas response_defs = plainResponse_def cachedResponse_def cachingHeaders_def isCached_def
  empty_def fullResponse_def newResponse_def newHeaders_def headerList_def
  DAList.empty.rep_eq DAList.update.rep_eq

lemmas header_defs = isHeaderName_def isTokenChar_def isHeaderValue_def normalizeValue_def
  isHttpWhitespace_def headersGet_def lower_def lowerChar_def

lemmas demo_defs = demoConfig_def defaultConfig_def demoFs_def demoStat_def noCaches_def get_def

lemmas call_defs = callStaticPlugin_def withDefaults_def defaultOptions_def orDefault_def
  noOptions_def noEnv_def defaultIgnorePatterns_def

section \<open>Substrings and ignore rules\<close>

lemma startsWith_iff: "startsWith s p \<longleftrightarrow> (\<exists>b. s = p @ b)"
  by (induction s p rule: startsWith.induct) auto

lemma str_includes_iff: "str_includes s sub \<longleftrightarrow> (\<exists>a b. s = a @ sub @ b)"
proof (induction s)
  case Nil
  then show ?case by auto
next
  case (Cons c cs)
  show ?case
  proof
    assume "str_includes (c # cs) sub"
    then consider "startsWith (c # cs) sub" | "str_includes cs sub" by auto
    then show "\<exists>a b. c # cs = a @ sub @ b"
    proof cases
      case 1
      then obtain b where "c # cs = sub @ b" by (auto simp: startsWith_iff)
      then have "c # cs = [] @ sub @ b" by simp
      then show ?thesis by blast
    next
      case 2
      with Cons obtain a b where "cs = a @ sub @ b" by blast
      then have "c # cs = (c # a) @ sub @ b" by simp
      then show ?thesis by blast
    qed
  next
    assume "\<exists>a b. c # cs = a @ sub @ b"
    then obtain a b where ab: "c # cs = a @ sub @ b" by blast
    show "str_includes (c # cs) sub"
    proof (cases a)
      case Nil
      with ab have "startsWith (c # cs) sub" by (auto simp: startsWith_iff)
      then show ?thesis by simp
    next
      case (Cons x a')
      with ab have "cs = a' @ sub @ b" by simp
      with Cons.IH have "str_includes cs sub" by blast
      then show ?thesis by simp
    qed
  qed
qed

text \<open>A single string rule ignores exactly the paths that occur inside the rule.\<close>

lemma shouldIgnore_literal:
  "shouldIgnore (cfg\<lparr>ignorePatterns := [Literal pattern]\<rparr>) file
     \<longleftrightarrow> pattern \<noteq> [] \<and> (\<exists>a b. pattern = a @ file @ b)"
  by (auto simp: shouldIgnore_def str_includes_iff)

section \<open>Splitting and joining\<close>

lemma split_not_Nil: "split c xs \<noteq> []"
  by (induction xs) (auto split: list.splits)

lemma split_no_sep: "c \<notin> set xs \<Longrightarrow> split c xs = [xs]"
  by (induction xs) auto

lemma split_append:
  "c \<notin> set ys \<Longrightarrow> split c (xs @ c # ys) = split c xs @ [ys]"
  by (induction xs) (auto simp: split_no_sep split_not_Nil split: list.splits)

lemma join_split: "join [c] (split c xs) = xs"
proof (induction xs)
  case Nil
  then show ?case by simp
next
  case (Cons x xs)
  obtain p ps where ps: "split c xs = p # ps"
    using split_not_Nil [of c xs] by (cases "split c xs") auto
  with Cons show ?case by (cases ps) auto
qed

text \<open>What \<^verbatim>\<open>split('.')\<close>, \<^verbatim>\<open>splice(-1)\<close> and \<^verbatim>\<open>join('.')\<close> do to a path.\<close>

lemma strip_no_dot:
  "CHR ''.'' \<notin> set rel \<Longrightarrow> join ''.'' (butlast (split CHR ''.'' rel)) = []"
  by (simp add: split_no_sep)

lemma strip_last_dot:
  "CHR ''.'' \<notin> set ext \<Longrightarrow> join ''.'' (butlast (split CHR ''.'' (base @ ''.'' @ ext))) = base"
  by (simp add: split_append join_split)

lemma join_split_append:
  "c \<notin> set ys \<Longrightarrow> join g (split c (xs @ ys)) = join g (split c xs) @ ys"
proof (induction xs)
  case Nil
  then show ?case by (simp add: split_no_sep)
next
  case (Cons x xs)
  obtain p ps where ps: "split c xs = p # ps"
    using split_not_Nil [of c xs] by (cases "split c xs") auto
  obtain q qs where qs: "split c (xs @ ys) = q # qs"
    using split_not_Nil [of c "xs @ ys"] by (cases "split c (xs @ ys)") auto
  from Cons ps qs show ?case
    by (cases ps; cases qs) auto
qed

lemma join_snoc: "join g (ps @ [p @ u]) = join g (ps @ [p]) @ u"
proof (induction ps)
  case Nil
  then show ?case by simp
next
  case (Cons a ps)
  then show ?case by (cases ps) auto
qed

lemma join_snoc_not_Nil: "p \<noteq> [] \<Longrightarrow> join g (ps @ [p]) \<noteq> []"
proof (induction ps)
  case Nil
  then show ?case by simp
next
  case (Cons a ps)
  then show ?case by (cases ps) auto
qed

lemma normalizeSegments_append:
  "normalizeSegments a res (xs @ ys) = normalizeSegments a (rev (normalizeSegments a res xs)) ys"
  by (induction a res xs rule: normalizeSegments.induct) (auto split: list.splits)

lemma normalizeSegments_snoc:
  "t \<noteq> [] \<Longrightarrow> t \<noteq> ''.'' \<Longrightarrow> t \<noteq> ''..'' \<Longrightarrow>
     normalizeSegments a res (xs @ [t]) = normalizeSegments a res xs @ [t]"
  by (simp add: normalizeSegments_append)

text \<open>
  Normalising a path that ends in an ordinary file name commutes with
  appending an extension to that name.
\<close>

lemma normalize_extension:
  assumes dir: "dir = [] \<or> last dir = CHR ''/''"
    and stem: "stem \<noteq> []" "stem \<noteq> ''.''" "stem \<noteq> ''..''" "CHR ''/'' \<notin> set stem"
    and ext: "CHR ''/'' \<notin> set ext"
  shows "normalize (dir @ stem @ ''.'' @ ext) = normalize (dir @ stem) @ ''.'' @ ext"
proof -
  let ?full = "stem @ ''.'' @ ext"
  have full: "?full \<noteq> []" "?full \<noteq> ''.''" "?full \<noteq> ''..''" "CHR ''/'' \<notin> set ?full"
    using stem ext by (auto simp: append_eq_Cons_conv Cons_eq_append_conv)
  have sp: "\<exists>segs. split CHR ''/'' (dir @ t) = segs @ [t]" if "CHR ''/'' \<notin> set t" for t
  proof (cases "dir = []")
    case True
    with that show ?thesis by (simp add: split_no_sep)
  next
    case False
    with dir obtain d where "dir = d @ ''/''"
      by (metis append_butlast_last_id)
    with that show ?thesis by (simp add: split_append)
  qed
  have same: "split CHR ''/'' (dir @ u) = segs @ [u]"
    if "CHR ''/'' \<notin> set t" "CHR ''/'' \<notin> set u" "split CHR ''/'' (dir @ t) = segs @ [t]"
    for t u segs
  proof (cases "dir = []")
    case True
    with that show ?thesis by (simp add: split_no_sep)
  next
    case False
    with dir obtain d where "dir = d @ ''/''"
      by (metis append_butlast_last_id)
    with that show ?thesis by (simp add: split_append)
  qed
  from sp [of stem] stem obtain segs where s1: "split CHR ''/'' (dir @ stem) = segs @ [stem]"
    by blast
  from same [OF stem(4) full(4) s1] have s2: "split CHR ''/'' (dir @ ?full) = segs @ [?full]" .
  have hd_eq: "hd (dir @ ?full) = hd (dir @ stem)"
    using stem by (cases dir) (auto simp: hd_append)
  have last1: "last (dir @ stem) \<noteq> CHR ''/''"
    using stem by (metis last_appendR last_in_set)
  have last2: "last (dir @ ?full) \<noteq> CHR ''/''"
    using full by (metis last_appendR last_in_set)
  let ?N = "normalizeSegments (hd (dir @ stem) \<noteq> CHR ''/'') [] segs"
  have n1: "normalizeSegments (hd (dir @ stem) \<noteq> CHR ''/'') [] (split CHR ''/'' (dir @ stem)) = ?N @ [stem]"
    using stem by (simp add: s1 normalizeSegments_snoc)
  have n2: "normalizeSegments (hd (dir @ stem) \<noteq> CHR ''/'') [] (split CHR ''/'' (dir @ ?full)) = ?N @ [?full]"
    unfolding s2 by (rule normalizeSegments_snoc [OF full(1,2,3)])
  have j: "join ''/'' (?N @ [?full]) = join ''/'' (?N @ [stem]) @ ''.'' @ ext"
    by (rule join_snoc)
  have ne1: "join ''/'' (?N @ [stem]) \<noteq> []"
    using stem by (simp add: join_snoc_not_Nil)
  have "normalize (dir @ ?full) =
      (if hd (dir @ stem) = CHR ''/'' then ''/'' else []) @ join ''/'' (?N @ [stem]) @ ''.'' @ ext"
    unfolding normalize_def using stem(1) last2 hd_eq n2 j ne1
    by (simp add: Let_def)
  moreover have "normalize (dir @ stem) =
      (if hd (dir @ stem) = CHR ''/'' then ''/'' else []) @ join ''/'' (?N @ [stem])"
    unfolding normalize_def using stem(1) last1 n1 ne1
    by (simp add: Let_def)
  ultimately show ?thesis by simp
qed

text \<open>The URL path of a name with an extension is the URL path of the name, then the extension.\<close>

lemma pathName_extension:
  assumes "dir = [] \<or> last dir = sepChar plat"
    and "stem \<noteq> []" "stem \<noteq> ''.''" "stem \<noteq> ''..''" "sepChar plat \<notin> set stem"
    and "sepChar plat \<notin> set ext"
  shows "pathName cfg plat (dir @ stem @ ''.'' @ ext) = pathName cfg plat (dir @ stem) @ ''.'' @ ext"
proof (cases plat)
  case Win32
  with assms(6) have "sepChar plat \<notin> set (''.'' @ ext)" by simp
  from join_split_append [OF this, of "''/''" "dir @ stem"] Win32 show ?thesis
    by (simp add: pathName_def platform_defs)
next
  case Posix
  with assms have d: "dir = [] \<or> last dir = CHR ''/''"
    and s: "CHR ''/'' \<notin> set stem" and e: "CHR ''/'' \<notin> set ext"
    by simp_all
  show ?thesis
  proof (cases "mountPrefix cfg = []")
    case True
    with Posix assms(2) normalize_extension [OF d assms(2,3,4) s e] show ?thesis
      by (simp add: pathName_def platform_defs)
  next
    case False
    have "mountPrefix cfg @ ''/'' @ dir = [] \<or> last (mountPrefix cfg @ ''/'' @ dir) = CHR ''/''"
      using d by auto
    from normalize_extension [OF this assms(2,3,4) s e] False Posix assms(2) show ?thesis
      by (simp add: pathName_def sep_def URL_PATH_SEP_def isFSSepUnsafe_def pathJoin_def)
  qed
qed

section \<open>Routes of static mode\<close>

lemma fileRoutes_handler:
  "r \<in> set (fileRoutes cfg plat absolutePath etag) \<Longrightarrow>
     \<exists>key. handler r = (if noCache cfg then StaticNoCache absolutePath
                        else StaticCached etag key absolutePath)"
  by (auto simp: fileRoutes_def Let_def split: if_splits)

text \<open>
  Every route of static mode serves an enumerated file that the ignore rules, as
  the code applies them, let pass.
\<close>

lemma staticRoutes_handler:
  "staticRoutes cfg plat fs files = Inr routes \<Longrightarrow> r \<in> set routes \<Longrightarrow>
     \<exists>absolutePath etag key. absolutePath \<in> set files \<and> absolutePath \<noteq> [] \<and>
        \<not> shouldIgnore cfg absolutePath \<and> generateETag fs absolutePath = Inr etag \<and>
        handler r = (if noCache cfg then StaticNoCache absolutePath
                     else StaticCached etag key absolutePath)"
proof (induction files arbitrary: routes)
  case Nil
  then show ?case by simp
next
  case (Cons f files)
  show ?case
  proof (cases "f = [] \<or> shouldIgnore cfg f")
    case True
    with Cons show ?thesis by auto
  next
    case False
    with Cons.prems(1) obtain etag rest where
      e: "generateETag fs f = Inr etag" and
      rest: "staticRoutes cfg plat fs files = Inr rest" and
      routes: "routes = fileRoutes cfg plat f etag @ rest"
      by (auto split: sum.splits)
    from Cons.prems(2) routes consider "r \<in> set (fileRoutes cfg plat f etag)" | "r \<in> set rest"
      by auto
    then show ?thesis
    proof cases
      case 1
      from fileRoutes_handler [OF 1] e False show ?thesis by (auto split: if_splits)
    next
      case 2
      from Cons.IH [OF rest 2] show ?thesis by auto
    qed
  qed
qed

lemma staticRoutes_no_wildcard:
  "staticRoutes cfg plat fs files = Inr routes \<Longrightarrow> r \<in> set routes \<Longrightarrow> handler r \<noteq> Wildcard"
  by (drule (1) staticRoutes_handler) (auto split: if_splits)

text \<open>Every file that is not skipped gets its routes, in a call that succeeds.\<close>

lemma staticRoutes_emits:
  "staticRoutes cfg plat fs files = Inr routes \<Longrightarrow> f \<in> set files \<Longrightarrow> f \<noteq> [] \<Longrightarrow>
   \<not> shouldIgnore cfg f \<Longrightarrow>
     \<exists>etag. generateETag fs f = Inr etag \<and> set (fileRoutes cfg plat f etag) \<subseteq> set routes"
proof (induction files arbitrary: routes)
  case Nil
  then show ?case by simp
next
  case (Cons g files)
  show ?case
  proof (cases "g = [] \<or> shouldIgnore cfg g")
    case True
    with Cons show ?thesis by auto
  next
    case False
    with Cons.prems(1) obtain etag rest where
      e: "generateETag fs g = Inr etag" and
      rest: "staticRoutes cfg plat fs files = Inr rest" and
      routes: "routes = fileRoutes cfg plat g etag @ rest"
      by (auto split: sum.splits)
    show ?thesis
    proof (cases "f = g")
      case True
      with e routes show ?thesis by auto
    next
      case False
      with Cons.prems(2) have "f \<in> set files" by simp
      from Cons.IH [OF rest this Cons.prems(3,4)] routes show ?thesis by auto
    qed
  qed
qed

section \<open>Header fields and responses\<close>

lemma newResponse_result:
  "newResponse st obj b = Inr r \<Longrightarrow>
     status r = st \<and> body r = b \<and> newHeaders obj = Inr (responseHeaders r)"
  by (auto simp: newResponse_def split: sum.splits)

lemma newResponse_ok:
  "newHeaders obj = Inr hl \<Longrightarrow>
     newResponse st obj b = Inr \<lparr> status = st, responseHeaders = hl, body = b \<rparr>"
  by (simp add: newResponse_def)

lemma newResponse_error: "newResponse st obj b = Inl e \<Longrightarrow> e = TypeError"
  by (auto simp: newResponse_def newHeaders_def split: sum.splits if_splits)

section \<open>Outcomes of the handlers\<close>

lemma plainResponse_result:
  "plainResponse cfg fs file = Inr r \<Longrightarrow>
     \<exists>b. readFile fs file = Some b \<and> status r = 200 \<and> body r = Some b \<and>
         newHeaders (headers cfg) = Inr (responseHeaders r)"
  by (auto simp: plainResponse_def fullResponse_def dest: newResponse_result split: option.splits)

lemma cachedResponse_status:
  "cachedResponse cfg fs req etag key file = Inr r \<Longrightarrow> status r = 200 \<or> status r = 304"
  by (auto simp: cachedResponse_def fullResponse_def empty_def Let_def dest: newResponse_result
      split: if_splits option.splits)

lemma serveFile_status:
  "serveFile cfg fs req p filePath = Inr r \<Longrightarrow> status r = 200 \<or> status r = 304"
  by (auto simp: serveFile_def dest: plainResponse_result cachedResponse_status
      split: if_splits sum.splits)

lemma tryBlock_status:
  "snd (tryBlock cfg plat fs cs req p) = Inr r \<Longrightarrow> status r = 200 \<or> status r = 304"
  by (auto simp: tryBlock_def dest: serveFile_status split: prod.splits sum.splits)

text \<open>What the \<^verbatim>\<open>catch\<close> clause makes of the \<^verbatim>\<open>try\<close> block.\<close>

lemma wildcardHandler_caught:
  "requestPath cfg plat req = Some p \<Longrightarrow> \<not> shouldIgnore cfg p \<Longrightarrow>
     snd (wildcardHandler cfg plat fs cs req) =
       (case snd (tryBlock cfg plat fs cs req p) of Inl e \<Rightarrow> Inl NotFoundError | Inr r \<Rightarrow> Inr r)"
  by (auto simp: wildcardHandler_def split: prod.splits sum.splits)

lemma wildcardHandler_ignored:
  "requestPath cfg plat req = Some p \<Longrightarrow> shouldIgnore cfg p \<Longrightarrow>
     snd (wildcardHandler cfg plat fs cs req) = Inl NotFoundError"
  by (simp add: wildcardHandler_def)

lemma wildcardHandler_outcome:
  "snd (wildcardHandler cfg plat fs cs req) = Inl URIError \<and> requestPath cfg plat req = None \<or>
   snd (wildcardHandler cfg plat fs cs req) = Inl NotFoundError \<or>
   (\<exists>r. snd (wildcardHandler cfg plat fs cs req) = Inr r \<and> (status r = 200 \<or> status r = 304))"
proof (cases "requestPath cfg plat req")
  case None
  then show ?thesis by (simp add: wildcardHandler_def)
next
  case (Some p)
  show ?thesis
  proof (cases "shouldIgnore cfg p")
    case True
    with Some show ?thesis by (simp add: wildcardHandler_ignored)
  next
    case False
    show ?thesis
    proof (cases "snd (tryBlock cfg plat fs cs req p)")
      case (Inl e)
      with Some False show ?thesis by (simp add: wildcardHandler_caught)
    next
      case (Inr r)
      with Some False tryBlock_status [OF Inr] show ?thesis by (simp add: wildcardHandler_caught)
    qed
  qed
qed

lemma tryBlock_stat_error:
  "cacheGet (statCache cs) p = None \<Longrightarrow> stat fs p = None \<Longrightarrow>
     snd (tryBlock cfg plat fs cs req p) = Inl FsError"
  by (simp add: tryBlock_def resolveRequest_def resolveStatus_def)

lemma tryBlock_no_indexing:
  "snd (resolveStatus fs cs p) = Inr st \<Longrightarrow> isDirectory st \<Longrightarrow> \<not> indexHTML cfg \<Longrightarrow>
     snd (tryBlock cfg plat fs cs req p) = Inl NotFoundError"
  by (auto simp: tryBlock_def resolveRequest_def split: prod.splits sum.splits)

lemma resolveStatus_fileCache:
  "resolveStatus fs cs p = (cs1, x) \<Longrightarrow> fileCache cs1 = fileCache cs \<and> htmlCache cs1 = htmlCache cs"
  by (auto simp: resolveStatus_def split: option.splits sum.splits)

lemma tryBlock_no_index_file:
  assumes "snd (resolveStatus fs cs p) = Inr st" "isDirectory st"
    and "cacheGet (fileCache cs) p = None"
    and "cacheGet (htmlCache cs) (p @ sep plat @ ''index.html'') = None"
    and "stat fs (p @ sep plat @ ''index.html'') = None"
  shows "snd (tryBlock cfg plat fs cs req p) = Inl NotFoundError"
proof -
  obtain cs1 where r: "resolveStatus fs cs p = (cs1, Inr st)"
    using assms(1) by (cases "resolveStatus fs cs p") auto
  from resolveStatus_fileCache [OF r] assms(3,4)
  have "cacheGet (fileCache cs1) p = None"
    and "cacheGet (htmlCache cs1) (p @ sep plat @ ''index.html'') = None"
    by (simp_all add: cacheGet_def)
  with r assms(2,5) show ?thesis
    by (simp add: tryBlock_def resolveRequest_def resolveFilePath_def fileExists_def Let_def)
qed

lemma tryBlock_etag_error:
  "snd (resolveRequest cfg plat fs cs p) = Inr filePath \<Longrightarrow> \<not> noCache cfg \<Longrightarrow>
   fingerprint fs filePath = None \<Longrightarrow>
     snd (tryBlock cfg plat fs cs req p) = Inl FsError"
  by (auto simp: tryBlock_def serveFile_def generateETag_def split: prod.splits sum.splits)

lemma tryBlock_read_error:
  "snd (resolveRequest cfg plat fs cs p) = Inr filePath \<Longrightarrow> readFile fs filePath = None \<Longrightarrow>
     (\<exists>e. snd (tryBlock cfg plat fs cs req p) = Inl e) \<or>
     snd (tryBlock cfg plat fs cs req p) = empty 304 (headers cfg)"
  by (auto simp: tryBlock_def serveFile_def plainResponse_def cachedResponse_def Let_def
      split: prod.splits sum.splits)

lemma wildcardHandler_serves:
  "requestPath cfg plat req = Some p \<Longrightarrow> \<not> shouldIgnore cfg p \<Longrightarrow>
   snd (resolveRequest cfg plat fs cs p) = Inr filePath \<Longrightarrow>
     snd (wildcardHandler cfg plat fs cs req) =
       (case serveFile cfg fs req p filePath of Inl e \<Rightarrow> Inl NotFoundError | Inr r \<Rightarrow> Inr r)"
  by (auto simp: wildcardHandler_caught tryBlock_def split: prod.splits sum.splits)

text \<open>A response of the wildcard handler comes from a resolved file.\<close>

lemma wildcardHandler_response:
  assumes "snd (wildcardHandler cfg plat fs cs req) = Inr r"
  shows "\<exists>p filePath. requestPath cfg plat req = Some p \<and> \<not> shouldIgnore cfg p \<and>
           snd (resolveRequest cfg plat fs cs p) = Inr filePath \<and>
           serveFile cfg fs req p filePath = Inr r"
proof -
  from assms obtain p where p: "requestPath cfg plat req = Some p" and i: "\<not> shouldIgnore cfg p"
    by (auto simp: wildcardHandler_def split: option.splits if_splits)
  with assms have t: "snd (tryBlock cfg plat fs cs req p) = Inr r"
    by (auto simp: wildcardHandler_caught split: sum.splits)
  then obtain filePath where "snd (resolveRequest cfg plat fs cs p) = Inr filePath"
    and "serveFile cfg fs req p filePath = Inr r"
    by (auto simp: tryBlock_def split: prod.splits sum.splits)
  with p i show ?thesis by blast
qed


lemma cachedResponse_full:
  "\<not> isCached fs req etag key \<Longrightarrow> readFile fs file = Some b \<Longrightarrow>
     cachedResponse cfg fs req etag key file = fullResponse (cachingHeaders cfg etag) b"
  by (simp add: cachedResponse_def Let_def)

lemma staticPlugin_handler:
  assumes "staticPlugin cfg plat envProduction fs files = Inr routes" "r \<in> set routes"
  shows "handler r = Wildcard \<or>
         (\<exists>absolutePath etag key. absolutePath \<in> set files \<and>
            generateETag fs absolutePath = Inr etag \<and>
            handler r = (if noCache cfg then StaticNoCache absolutePath
                         else StaticCached etag key absolutePath))"
proof (cases "alwaysStatic cfg \<or> (envProduction \<and> int (length files) \<le> staticLimit cfg)")
  case True
  with assms have "staticRoutes cfg plat fs files = Inr routes"
    by (simp add: staticPlugin_def)
  from staticRoutes_handler [OF this assms(2)] show ?thesis by blast
next
  case False
  with assms show ?thesis
    by (auto simp: staticPlugin_def wildcardRoute_def)
qed

lemma serveFile_noCache:
  "noCache cfg \<Longrightarrow> serveFile cfg fs req p filePath = plainResponse cfg fs filePath"
  by (simp add: serveFile_def)

lemma wildcardHandler_noCache_independent:
  assumes "noCache cfg" "pathname req' = pathname req"
  shows "wildcardHandler cfg plat (fs\<lparr>fingerprint := g\<rparr>) cs req' = wildcardHandler cfg plat fs cs req"
proof -
  have rp: "requestPath cfg plat req' = requestPath cfg plat req"
    using assms(2) by (simp add: requestPath_def)
  have rs: "resolveStatus (fs\<lparr>fingerprint := g\<rparr>) cs p = resolveStatus fs cs p" for cs p
    by (simp add: resolveStatus_def split: option.splits)
  have rf: "resolveFilePath cfg plat (fs\<lparr>fingerprint := g\<rparr>) cs p st = resolveFilePath cfg plat fs cs p st"
    for cs p st
    by (auto simp: resolveFilePath_def fileExists_def Let_def split: option.splits)
  have rr: "resolveRequest cfg plat (fs\<lparr>fingerprint := g\<rparr>) cs p = resolveRequest cfg plat fs cs p" for p
    by (simp add: resolveRequest_def rs rf split: prod.splits sum.splits)
  have sf: "serveFile cfg (fs\<lparr>fingerprint := g\<rparr>) req' p filePath = serveFile cfg fs req p filePath"
    for p filePath
    using assms(1) by (simp add: serveFile_noCache plainResponse_def split: option.splits)
  have "tryBlock cfg plat (fs\<lparr>fingerprint := g\<rparr>) cs req' p = tryBlock cfg plat fs cs req p" for p
    by (simp add: tryBlock_def rr sf split: prod.splits sum.splits)
  with rp show ?thesis by (simp add: wildcardHandler_def split: option.splits)
qed

text \<open>A full response of the conditional part: its header list and its body.\<close>

lemma cachedResponse_headers:
  assumes "cachedResponse cfg fs req etag key filePath = Inr resp" "status resp = 200"
  shows "newHeaders (cachingHeaders cfg etag) = Inr (responseHeaders resp) \<and>
         body resp = readFile fs filePath \<and> \<not> isCached fs req etag key"
proof (cases "isCached fs req etag key")
  case True
  with assms(1) have "empty 304 (headers cfg) = Inr resp"
    by (simp add: cachedResponse_def)
  from newResponse_result [OF this [unfolded empty_def]] assms(2) show ?thesis by simp
next
  case False
  with assms obtain b where b: "readFile fs filePath = Some b"
    by (auto simp: cachedResponse_def Let_def split: option.splits)
  with False assms(1) have "newResponse 200 (cachingHeaders cfg etag) (Some b) = Inr resp"
    by (simp add: cachedResponse_def fullResponse_def Let_def)
  from newResponse_result [OF this] b False show ?thesis by simp
qed

lemma relativePath_no_dot:
  "noExtension cfg \<Longrightarrow> CHR ''.'' \<notin> set (replace f (assetsDir cfg plat) []) \<Longrightarrow>
     relativePath cfg plat f = []"
  by (simp add: relativePath_def strip_no_dot)

lemma relativePath_last_dot:
  "noExtension cfg \<Longrightarrow> replace f (assetsDir cfg plat) [] = base @ ''.'' @ ext \<Longrightarrow>
   CHR ''.'' \<notin> set ext \<Longrightarrow>
     relativePath cfg plat f = base"
  using strip_last_dot [of ext base] by (simp add: relativePath_def)

text \<open>The first route pushed for a file that is not skipped, in a call in static mode.\<close>

lemma staticPlugin_file_route:
  assumes "staticPlugin cfg plat envProduction fs0 files = Inr routes"
    and "alwaysStatic cfg \<or> (envProduction \<and> int (length files) \<le> staticLimit cfg)"
    and "f \<in> set files" "f \<noteq> []" "\<not> shouldIgnore cfg f"
  shows "\<exists>etag. generateETag fs0 f = Inr etag \<and>
           \<lparr> httpMethod = ''GET'', path = pathName cfg plat (relativePath cfg plat f),
             handler = (if noCache cfg then StaticNoCache f else StaticCached etag f f) \<rparr>
           \<in> set routes"
proof -
  from assms(1,2) have "staticRoutes cfg plat fs0 files = Inr routes"
    by (simp add: staticPlugin_def)
  from staticRoutes_emits [OF this assms(3,4,5)] show ?thesis
    by (auto simp: fileRoutes_def Let_def)
qed

lemma static_handler_body:
  assumes "h = (if noCache cfg then StaticNoCache f else StaticCached etag key f)"
    and "snd (run cfg plat fs cs h req) = Inr resp" "status resp = 200"
  shows "body resp = readFile fs f"
proof (cases "noCache cfg")
  case True
  with assms have "plainResponse cfg fs f = Inr resp" by simp
  from plainResponse_result [OF this] show ?thesis by auto
next
  case False
  with assms have "cachedResponse cfg fs req etag key f = Inr resp" by simp
  from cachedResponse_headers [OF this assms(3)] show ?thesis by simp
qed


section \<open>Decimal numerals\<close>




section \<open>Header values\<close>






section \<open>Header lists\<close>

lemma newHeaders_headerList: "newHeaders obj = Inr hl \<Longrightarrow> hl = headerList obj"
  by (auto simp: newHeaders_def split: if_splits)



lemma filter_headerList:
  "filter (\<lambda>(n, v). lower n = c) (headerList obj)
     = map (\<lambda>(n, v). (n, normalizeValue v)) (filter (\<lambda>(n, v). lower n = c) (DAList.impl_of obj))"
  by (simp add: headerList_def filter_map comp_def case_prod_unfold)




section \<open>The headers of a full response with caching\<close>

lemma lower_names: "lower ''Etag'' = ''etag''" "lower ''Cache-Control'' = ''cache-control''"
  by (simp_all add: lower_def lowerChar_def)




section \<open>Mode selection\<close>

lemma staticRoutes_paths:
  "staticRoutes cfg plat fs files = Inr routes \<Longrightarrow> \<not> indexHTML cfg \<Longrightarrow>
     map path routes =
       map (\<lambda>f. pathName cfg plat (relativePath cfg plat f))
         (filter (\<lambda>f. f \<noteq> [] \<and> \<not> shouldIgnore cfg f) files)"
proof (induction files arbitrary: routes)
  case Nil
  then show ?case by simp
next
  case (Cons f files)
  show ?case
  proof (cases "f = [] \<or> shouldIgnore cfg f")
    case True
    with Cons show ?thesis by auto
  next
    case False
    with Cons.prems(1) obtain etag rest where
      rest: "staticRoutes cfg plat fs files = Inr rest" and
      routes: "routes = fileRoutes cfg plat f etag @ rest"
      by (auto split: sum.splits)
    from Cons.IH [OF rest Cons.prems(2)] routes False Cons.prems(2) show ?thesis
      by (simp add: fileRoutes_def Let_def)
  qed
qed

text \<open>What the plugin is called with, in terms of the configuration it then works with.\<close>

lemma callStaticPlugin_mode:
  "callStaticPlugin env cwd plat arg fs files =
     (let cfg = withDefaults env cwd (orDefault arg (defaultOptions env cwd))
      in if alwaysStatic cfg \<or> (ENV env = Some ''production'' \<and> int (length files) \<le> staticLimit cfg)
         then staticRoutes cfg plat fs files
         else Inr [wildcardRoute cfg])"
  by (simp add: callStaticPlugin_def staticPlugin_def Let_def)

lemma withDefaults_defaultOptions:
  "withDefaults env cwd (defaultOptions env cwd) = defaultConfig (NODE_ENV env = Some ''production'') cwd"
  by (simp add: withDefaults_def defaultOptions_def defaultConfig_def orDefault_def)


lemma orDefault_Some: "orDefault (Some x) d = x"
  by (simp add: orDefault_def)

lemma orDefault_None: "orDefault None d = d"
  by (simp add: orDefault_def)

lemma headersGet_none:
  "\<forall>n \<in> fst ` set (DAList.impl_of obj). lower n \<noteq> lower name \<Longrightarrow>
     headersGet (headerList obj) name = None"
proof -
  assume "\<forall>n \<in> fst ` set (DAList.impl_of obj). lower n \<noteq> lower name"
  then have "filter (\<lambda>(n, v). lower n = lower name) (DAList.impl_of obj) = []"
    by (auto simp: filter_empty_conv)
  then show ?thesis
    by (simp add: headersGet_def filter_headerList)
qed


section \<open>Claims\<close>

text \<open>
  Claim C1. A path is excluded if any ignore rule matches, a string rule
  matching when the rule string occurs inside the path; an excluded file gets no
  static route and a request for it fails with NotFound in dynamic mode.
  The code tests a string rule the other way round (\<^verbatim>\<open>pattern.includes(file)\<close>):
  under the default rules, which name \<^verbatim>\<open>.env\<close>, the file \<^verbatim>\<open>/srv/public/.env\<close> is
  not ignored, static mode emits a route for it, and dynamic mode serves it.
\<close>

theorem C1_literal_rule_is_tested_backwards:
  "\<not> shouldIgnore (demoConfig\<lparr>ignorePatterns := defaultIgnorePatterns\<rparr>) ''/srv/public/.env'' \<and>
   staticPlugin (demoConfig\<lparr>alwaysStatic := True, ignorePatterns := defaultIgnorePatterns\<rparr>)
       Posix False demoFs [''/srv/public/.env'']
     = Inr [\<lparr> httpMethod = ''GET'', path = ''/public/.env'',
               handler = StaticCached ''etag of /srv/public/.env'' ''/srv/public/.env''
                           ''/srv/public/.env'' \<rparr>] \<and>
   \<not> shouldIgnore (demoConfig\<lparr>ignorePatterns := defaultIgnorePatterns\<rparr>) ''public/.env'' \<and>
   snd (run (demoConfig\<lparr>ignorePatterns := defaultIgnorePatterns\<rparr>) Posix demoFs noCaches Wildcard
          (get ''/public/.env''))
     = Inr \<lparr> status = 200,
             responseHeaders = [(''Etag'', ''etag of public/.env''),
                                (''Cache-Control'', ''public, max-age=86400'')],
             body = Some ''content of public/.env'' \<rparr>"
  by (simp add: string_defs platform_defs static_defs dynamic_defs response_defs header_defs
      demo_defs defaultIgnorePatterns_def Let_def)

text \<open>
  Claim C2. Static mode (one concrete route per file) is selected exactly when
  the caller requests it via the force-static flag, or when the environment
  designates always-serve-statically and the number of enumerated files is at
  most the ceiling (1024 by default); otherwise exactly one wildcard route is
  emitted, with path \<^verbatim>\<open><prefix>/*\<close>, and never two.
  Amended in two places. Static mode is also selected when the caller leaves the
  flag out and \<^verbatim>\<open>NODE_ENV\<close> is \<^verbatim>\<open>production\<close>, whatever the number of files; the
  environment that designates always-serve-statically is \<^verbatim>\<open>ENV\<close> being
  \<^verbatim>\<open>production\<close>. And in the path of the wildcard route the prefix \<^verbatim>\<open>/\<close> counts as
  the empty prefix.
  The theorem is about a call of the plugin, with the options as the caller
  passes them, if any. Static mode returns what the loop over the files builds:
  no wildcard route, and for every file that the loop does not skip a route at
  the URL path of the file, whose handler serves that file; without directory
  indexes these are all the routes, one per file and in the order of the files.
  Dynamic mode returns the wildcard route alone.
\<close>

theorem C2_mode_selection:
  "(let cfg = withDefaults env cwd (orDefault arg (defaultOptions env cwd));
        forced = (case arg of None \<Rightarrow> False | Some opts \<Rightarrow> alwaysStaticOpt opts = Some True);
        leftOut = (case arg of None \<Rightarrow> True | Some opts \<Rightarrow> alwaysStaticOpt opts = None);
        ceiling = (case arg of None \<Rightarrow> 1024 | Some opts \<Rightarrow> orDefault (staticLimitOpt opts) 1024);
        p = (case arg of None \<Rightarrow> ''/public'' | Some opts \<Rightarrow> orDefault (prefixOpt opts) ''/public'')
    in callStaticPlugin env cwd plat arg fs files =
         (if forced \<or> (leftOut \<and> NODE_ENV env = Some ''production'') \<or>
             (ENV env = Some ''production'' \<and> int (length files) \<le> ceiling)
          then staticRoutes cfg plat fs files
          else Inr [\<lparr> httpMethod = ''GET'', path = (if p = ''/'' then [] else p) @ ''/*'',
                      handler = Wildcard \<rparr>]) \<and>
       (\<forall>routes. staticRoutes cfg plat fs files = Inr routes \<longrightarrow>
          (\<forall>r \<in> set routes. handler r \<noteq> Wildcard) \<and>
          (\<forall>f \<in> set files. f \<noteq> [] \<and> \<not> shouldIgnore cfg f \<longrightarrow>
             (\<exists>etag. generateETag fs f = Inr etag \<and>
                \<lparr> httpMethod = ''GET'', path = pathName cfg plat (relativePath cfg plat f),
                  handler = (if noCache cfg then StaticNoCache f else StaticCached etag f f) \<rparr>
                \<in> set routes)) \<and>
          (\<not> indexHTML cfg \<longrightarrow>
             map path routes =
               map (\<lambda>f. pathName cfg plat (relativePath cfg plat f))
                 (filter (\<lambda>f. f \<noteq> [] \<and> \<not> shouldIgnore cfg f) files))))"
proof -
  define cfg where "cfg = withDefaults env cwd (orDefault arg (defaultOptions env cwd))"
  have flag: "alwaysStatic cfg \<longleftrightarrow>
      (case arg of None \<Rightarrow> False | Some opts \<Rightarrow> alwaysStaticOpt opts = Some True) \<or>
      (case arg of None \<Rightarrow> True | Some opts \<Rightarrow> alwaysStaticOpt opts = None) \<and>
        NODE_ENV env = Some ''production''"
    by (auto simp: cfg_def withDefaults_def defaultOptions_def orDefault_def split: option.splits)
  have limit: "staticLimit cfg =
      (case arg of None \<Rightarrow> 1024 | Some opts \<Rightarrow> orDefault (staticLimitOpt opts) 1024)"
    by (simp add: cfg_def withDefaults_def defaultOptions_def orDefault_def split: option.splits)
  have pre: "prefix cfg =
      (case arg of None \<Rightarrow> ''/public'' | Some opts \<Rightarrow> orDefault (prefixOpt opts) ''/public'')"
    by (simp add: cfg_def withDefaults_def defaultOptions_def orDefault_def split: option.splits)
  have mode: "callStaticPlugin env cwd plat arg fs files =
      (if alwaysStatic cfg \<or> (ENV env = Some ''production'' \<and> int (length files) \<le> staticLimit cfg)
       then staticRoutes cfg plat fs files
       else Inr [\<lparr> httpMethod = ''GET'',
                   path = (if prefix cfg = ''/'' then [] else prefix cfg) @ ''/*'',
                   handler = Wildcard \<rparr>])"
    by (simp add: callStaticPlugin_mode cfg_def [symmetric] wildcardRoute_def mountPrefix_def
        URL_PATH_SEP_def)
  have emits: "\<exists>etag. generateETag fs f = Inr etag \<and>
      \<lparr> httpMethod = ''GET'', path = pathName cfg plat (relativePath cfg plat f),
        handler = (if noCache cfg then StaticNoCache f else StaticCached etag f f) \<rparr> \<in> set routes"
    if "staticRoutes cfg plat fs files = Inr routes" "f \<in> set files" "f \<noteq> []"
      "\<not> shouldIgnore cfg f" for routes f
    using staticRoutes_emits [OF that] by (auto simp: fileRoutes_def Let_def)
  have static: "(\<forall>r \<in> set routes. handler r \<noteq> Wildcard) \<and>
      (\<forall>f \<in> set files. f \<noteq> [] \<and> \<not> shouldIgnore cfg f \<longrightarrow>
         (\<exists>etag. generateETag fs f = Inr etag \<and>
            \<lparr> httpMethod = ''GET'', path = pathName cfg plat (relativePath cfg plat f),
              handler = (if noCache cfg then StaticNoCache f else StaticCached etag f f) \<rparr>
            \<in> set routes)) \<and>
      (\<not> indexHTML cfg \<longrightarrow>
         map path routes =
           map (\<lambda>f. pathName cfg plat (relativePath cfg plat f))
             (filter (\<lambda>f. f \<noteq> [] \<and> \<not> shouldIgnore cfg f) files))"
    if "staticRoutes cfg plat fs files = Inr routes" for routes
    using staticRoutes_no_wildcard [OF that] emits [OF that] staticRoutes_paths [OF that]
    by blast
  have "callStaticPlugin env cwd plat arg fs files =
      (if (case arg of None \<Rightarrow> False | Some opts \<Rightarrow> alwaysStaticOpt opts = Some True) \<or>
          ((case arg of None \<Rightarrow> True | Some opts \<Rightarrow> alwaysStaticOpt opts = None) \<and>
           NODE_ENV env = Some ''production'') \<or>
          (ENV env = Some ''production'' \<and>
           int (length files)
             \<le> (case arg of None \<Rightarrow> 1024 | Some opts \<Rightarrow> orDefault (staticLimitOpt opts) 1024))
       then staticRoutes cfg plat fs files
       else Inr [\<lparr> httpMethod = ''GET'',
                   path = (if (case arg of None \<Rightarrow> ''/public''
                               | Some opts \<Rightarrow> orDefault (prefixOpt opts) ''/public'') = ''/''
                           then []
                           else (case arg of None \<Rightarrow> ''/public''
                                 | Some opts \<Rightarrow> orDefault (prefixOpt opts) ''/public'')) @ ''/*'',
                   handler = Wildcard \<rparr>])"
    unfolding mode flag limit pre by (simp add: disj_assoc)
  with static show ?thesis
    unfolding Let_def cfg_def [symmetric] by blast
qed

theorem C2_mode_selection_witness:
  "callStaticPlugin noEnv ''/srv'' Posix (Some (noOptions\<lparr>alwaysStaticOpt := Some True\<rparr>)) demoFs
       [''/srv/public/a.txt'']
     = Inr [\<lparr> httpMethod = ''GET'', path = ''/public/a.txt'',
               handler = StaticCached ''etag of /srv/public/a.txt'' ''/srv/public/a.txt''
                           ''/srv/public/a.txt'' \<rparr>] \<and>
   callStaticPlugin \<lparr> NODE_ENV = None, ENV = Some ''production'' \<rparr> ''/srv'' Posix None demoFs
       [''/srv/public/a.txt'']
     = Inr [\<lparr> httpMethod = ''GET'', path = ''/public/a.txt'',
               handler = StaticCached ''etag of /srv/public/a.txt'' ''/srv/public/a.txt''
                           ''/srv/public/a.txt'' \<rparr>] \<and>
   callStaticPlugin \<lparr> NODE_ENV = None, ENV = Some ''production'' \<rparr> ''/srv'' Posix
       (Some (noOptions\<lparr>staticLimitOpt := Some 0\<rparr>)) demoFs [''/srv/public/a.txt'']
     = Inr [\<lparr> httpMethod = ''GET'', path = ''/public/*'', handler = Wildcard \<rparr>] \<and>
   callStaticPlugin noEnv ''/srv'' Posix None demoFs [''/srv/public/a.txt'']
     = Inr [\<lparr> httpMethod = ''GET'', path = ''/public/*'', handler = Wildcard \<rparr>] \<and>
   callStaticPlugin \<lparr> NODE_ENV = Some ''production'', ENV = None \<rparr> ''/srv'' Posix
       (Some (noOptions\<lparr>alwaysStaticOpt := Some False\<rparr>)) demoFs [''/srv/public/a.txt'']
     = Inr [\<lparr> httpMethod = ''GET'', path = ''/public/*'', handler = Wildcard \<rparr>] \<and>
   map path [\<lparr> httpMethod = ''GET'', path = ''/public/a.txt'',
               handler = StaticCached ''etag of /srv/public/a.txt'' ''/srv/public/a.txt''
                           ''/srv/public/a.txt'' \<rparr>]
     = map (\<lambda>f. pathName (withDefaults noEnv ''/srv''
                              (noOptions\<lparr>alwaysStaticOpt := Some True, indexHTMLOpt := Some False\<rparr>))
                   Posix
                   (relativePath (withDefaults noEnv ''/srv''
                              (noOptions\<lparr>alwaysStaticOpt := Some True, indexHTMLOpt := Some False\<rparr>))
                      Posix f))
         [''/srv/public/a.txt'']"
proof -
  let ?a = "''/srv/public/a.txt''"
  let ?route = "\<lparr> httpMethod = ''GET'', path = ''/public/a.txt'',
                  handler = StaticCached ''etag of /srv/public/a.txt'' ?a ?a \<rparr>"
  let ?wildcard = "\<lparr> httpMethod = ''GET'', path = ''/public/*'', handler = Wildcard \<rparr>"
  let ?production = "\<lparr> NODE_ENV = None, ENV = Some ''production'' \<rparr>"
  have routes: "staticRoutes cfg Posix demoFs [?a] = Inr [?route]"
    if c: "assets cfg = ''public''" "prefix cfg = ''/public''" "\<not> noExtension cfg"
      "resolve cfg = ''/srv''" "\<not> noCache cfg"
      and i: "ignorePatterns cfg = [] \<or> ignorePatterns cfg = defaultIgnorePatterns"
    for cfg
  proof -
    have ad: "assetsDir cfg Posix = ''/srv/public''"
      by (simp add: assetsDir_def c sep_def)
    have rel: "relativePath cfg Posix ?a = ''/a.txt''"
      by (simp add: relativePath_def ad c)
    have pn: "pathName cfg Posix ''/a.txt'' = ''/public/a.txt''"
      by (simp add: pathName_def mountPrefix_def c platform_defs)
    from i have ig: "\<not> shouldIgnore cfg ?a"
    proof
      assume "ignorePatterns cfg = []"
      then show ?thesis by (simp add: shouldIgnore_def)
    next
      assume "ignorePatterns cfg = defaultIgnorePatterns"
      then show ?thesis by (simp add: shouldIgnore_def defaultIgnorePatterns_def)
    qed
    have et: "generateETag demoFs ?a = Inr ''etag of /srv/public/a.txt''"
      by (simp add: generateETag_def demoFs_def)
    have en: "\<not> endsWith ''/public/a.txt'' ''/index.html''"
      by (simp add: endsWith_def)
    show ?thesis
      by (simp add: ig et fileRoutes_def rel pn en c Let_def)
  qed
  have r1: "staticRoutes (withDefaults noEnv ''/srv'' (noOptions\<lparr>alwaysStaticOpt := Some True\<rparr>))
              Posix demoFs [?a] = Inr [?route]"
    by (rule routes) (simp_all add: withDefaults_def orDefault_def noOptions_def)
  have 1: "callStaticPlugin noEnv ''/srv'' Posix (Some (noOptions\<lparr>alwaysStaticOpt := Some True\<rparr>))
             demoFs [?a] = Inr [?route]"
    using C2_mode_selection [where env = noEnv and cwd = "''/srv''" and plat = Posix and fs = demoFs
        and arg = "Some (noOptions\<lparr>alwaysStaticOpt := Some True\<rparr>)" and files = "[?a]",
        unfolded Let_def orDefault_Some r1, THEN conjunct1]
    by (simp add: noOptions_def)
  have r2: "staticRoutes (withDefaults ?production ''/srv'' (defaultOptions ?production ''/srv''))
              Posix demoFs [?a] = Inr [?route]"
    by (rule routes) (simp_all add: withDefaults_def orDefault_def defaultOptions_def)
  have 2: "callStaticPlugin ?production ''/srv'' Posix None demoFs [?a] = Inr [?route]"
    using C2_mode_selection [where env = ?production and cwd = "''/srv''" and plat = Posix
        and fs = demoFs and arg = None and files = "[?a]",
        unfolded Let_def orDefault_None r2, THEN conjunct1]
    by simp
  have 3: "callStaticPlugin ?production ''/srv'' Posix (Some (noOptions\<lparr>staticLimitOpt := Some 0\<rparr>))
             demoFs [?a] = Inr [?wildcard]"
    using C2_mode_selection [where env = ?production and cwd = "''/srv''" and plat = Posix
        and fs = demoFs and arg = "Some (noOptions\<lparr>staticLimitOpt := Some 0\<rparr>)" and files = "[?a]",
        unfolded Let_def, THEN conjunct1]
    by (simp add: orDefault_def noOptions_def)
  have 4: "callStaticPlugin noEnv ''/srv'' Posix None demoFs [?a] = Inr [?wildcard]"
    using C2_mode_selection [where env = noEnv and cwd = "''/srv''" and plat = Posix
        and fs = demoFs and arg = None and files = "[?a]", unfolded Let_def, THEN conjunct1]
    by (simp add: noEnv_def)
  have 5: "callStaticPlugin \<lparr> NODE_ENV = Some ''production'', ENV = None \<rparr> ''/srv'' Posix
             (Some (noOptions\<lparr>alwaysStaticOpt := Some False\<rparr>)) demoFs [?a] = Inr [?wildcard]"
    using C2_mode_selection [where env = "\<lparr> NODE_ENV = Some ''production'', ENV = None \<rparr>"
        and cwd = "''/srv''" and plat = Posix and fs = demoFs
        and arg = "Some (noOptions\<lparr>alwaysStaticOpt := Some False\<rparr>)" and files = "[?a]",
        unfolded Let_def, THEN conjunct1]
    by (simp add: orDefault_def noOptions_def)
  let ?opts = "noOptions\<lparr>alwaysStaticOpt := Some True, indexHTMLOpt := Some False\<rparr>"
  let ?cfg = "withDefaults noEnv ''/srv'' ?opts"
  have r6: "staticRoutes ?cfg Posix demoFs [?a] = Inr [?route]"
    by (rule routes) (simp_all add: withDefaults_def orDefault_def noOptions_def)
  have ni: "\<not> indexHTML ?cfg"
    by (simp add: withDefaults_def orDefault_def noOptions_def)
  have ig: "\<not> shouldIgnore ?cfg ?a"
    by (simp add: withDefaults_def orDefault_def noOptions_def shouldIgnore_def
        defaultIgnorePatterns_def)
  note C2_mode_selection [where env = noEnv and cwd = "''/srv''" and plat = Posix
      and fs = demoFs and arg = "Some ?opts" and files = "[?a]",
      unfolded Let_def orDefault_Some, THEN conjunct2, rule_format, OF r6]
  from this [THEN conjunct2, THEN conjunct2, rule_format, OF ni] ig
  have 6: "map path [?route]
     = map (\<lambda>f. pathName ?cfg Posix (relativePath ?cfg Posix f)) [?a]"
    by simp
  from 1 2 3 4 5 6 show ?thesis by blast
qed

text \<open>
  Claim C2 as stated fails in its selection rule and in the path of the wildcard
  route. With \<^verbatim>\<open>NODE_ENV\<close> set to \<^verbatim>\<open>production\<close>, \<^verbatim>\<open>ENV\<close> unset, a ceiling of one file
  and no force-static flag passed, two files are served in static mode: the
  flag defaults to true there, although the caller did not request it and the
  files exceed the ceiling. And with the prefix \<^verbatim>\<open>/\<close> the wildcard route is \<^verbatim>\<open>/*\<close>,
  not \<^verbatim>\<open>//*\<close>: the plugin replaces the root prefix by the empty one before it builds
  any path.
\<close>

theorem C2_selection_and_root_prefix_counterexample:
  "callStaticPlugin \<lparr> NODE_ENV = Some ''production'', ENV = None \<rparr> ''/srv'' Posix
       (Some (noOptions\<lparr>staticLimitOpt := Some 1\<rparr>)) demoFs
       [''/srv/public/a.txt'', ''/srv/public/b.txt'']
     = Inr [\<lparr> httpMethod = ''GET'', path = ''/public/a.txt'',
               handler = StaticCached ''etag of /srv/public/a.txt'' ''/srv/public/a.txt''
                           ''/srv/public/a.txt'' \<rparr>,
            \<lparr> httpMethod = ''GET'', path = ''/public/b.txt'',
               handler = StaticCached ''etag of /srv/public/b.txt'' ''/srv/public/b.txt''
                           ''/srv/public/b.txt'' \<rparr>] \<and>
   alwaysStaticOpt (noOptions\<lparr>staticLimitOpt := Some 1\<rparr>) = None \<and>
   callStaticPlugin noEnv ''/srv'' Posix (Some (noOptions\<lparr>prefixOpt := Some ''/''\<rparr>)) demoFs []
     = Inr [\<lparr> httpMethod = ''GET'', path = ''/*'', handler = Wildcard \<rparr>] \<and>
   ''/*'' \<noteq> ''/'' @ ''/*''"
  by (simp add: call_defs string_defs platform_defs static_defs demoFs_def Let_def)

text \<open>
  Claim C3. Every request handled by the wildcard handler ends in a successful
  response (200 or 304) or in NotFound; a missing path, a directory with indexing
  disabled or without index file, and any failure of the file system while the
  path is resolved, the ETag computed or the body read yield NotFound, and no
  raw I/O error leaves the handler.
  Amended to the requests whose path decodes, which are all requests when
  percent-decoding is off: for these the outcome is 200, 304 or NotFound, and
  each of the listed failures yields NotFound (a failed body read is not reached
  when the answer is 304). For every request whatsoever no file-system or cache
  error leaves the handler, nor an error of the \<^verbatim>\<open>Response\<close> constructor.
\<close>

theorem C3_wildcard_outcomes:
  "snd (run cfg plat fs cs Wildcard req) \<noteq> Inl FsError \<and>
   snd (run cfg plat fs cs Wildcard req) \<noteq> Inl CacheFullError \<and>
   snd (run cfg plat fs cs Wildcard req) \<noteq> Inl TypeError \<and>
   (\<forall>p. requestPath cfg plat req = Some p \<longrightarrow>
      (snd (run cfg plat fs cs Wildcard req) = Inl NotFoundError \<or>
       (\<exists>r. snd (run cfg plat fs cs Wildcard req) = Inr r \<and> (status r = 200 \<or> status r = 304))) \<and>
      (cacheGet (statCache cs) p = None \<and> stat fs p = None \<longrightarrow>
         snd (run cfg plat fs cs Wildcard req) = Inl NotFoundError) \<and>
      (\<forall>st. snd (resolveStatus fs cs p) = Inr st \<and> isDirectory st \<and> \<not> indexHTML cfg \<longrightarrow>
         snd (run cfg plat fs cs Wildcard req) = Inl NotFoundError) \<and>
      (\<forall>st. snd (resolveStatus fs cs p) = Inr st \<and> isDirectory st \<and>
            cacheGet (fileCache cs) p = None \<and>
            cacheGet (htmlCache cs) (p @ sep plat @ ''index.html'') = None \<and>
            stat fs (p @ sep plat @ ''index.html'') = None \<longrightarrow>
         snd (run cfg plat fs cs Wildcard req) = Inl NotFoundError) \<and>
      (\<forall>e. snd (resolveRequest cfg plat fs cs p) = Inl e \<longrightarrow>
         snd (run cfg plat fs cs Wildcard req) = Inl NotFoundError) \<and>
      (\<forall>filePath. snd (resolveRequest cfg plat fs cs p) = Inr filePath \<and> \<not> noCache cfg \<and>
            fingerprint fs filePath = None \<longrightarrow>
         snd (run cfg plat fs cs Wildcard req) = Inl NotFoundError) \<and>
      (\<forall>filePath. snd (resolveRequest cfg plat fs cs p) = Inr filePath \<and>
            readFile fs filePath = None \<longrightarrow>
         snd (run cfg plat fs cs Wildcard req) = Inl NotFoundError \<or>
         (\<exists>r. empty 304 (headers cfg) = Inr r \<and> snd (run cfg plat fs cs Wildcard req) = Inr r)))"
proof (intro conjI allI impI)
  show "snd (run cfg plat fs cs Wildcard req) \<noteq> Inl FsError"
    using wildcardHandler_outcome [of cfg plat fs cs req] by auto
  show "snd (run cfg plat fs cs Wildcard req) \<noteq> Inl CacheFullError"
    using wildcardHandler_outcome [of cfg plat fs cs req] by auto
  show "snd (run cfg plat fs cs Wildcard req) \<noteq> Inl TypeError"
    using wildcardHandler_outcome [of cfg plat fs cs req] by auto
next
  fix p assume "requestPath cfg plat req = Some p"
  then show "snd (run cfg plat fs cs Wildcard req) = Inl NotFoundError \<or>
       (\<exists>r. snd (run cfg plat fs cs Wildcard req) = Inr r \<and> (status r = 200 \<or> status r = 304))"
    using wildcardHandler_outcome [of cfg plat fs cs req] by auto
next
  fix p assume p: "requestPath cfg plat req = Some p"
    and "cacheGet (statCache cs) p = None \<and> stat fs p = None"
  then have "snd (tryBlock cfg plat fs cs req p) = Inl FsError"
    by (simp add: tryBlock_stat_error)
  with p show "snd (run cfg plat fs cs Wildcard req) = Inl NotFoundError"
    by (cases "shouldIgnore cfg p") (simp_all add: wildcardHandler_ignored wildcardHandler_caught)
next
  fix p st assume p: "requestPath cfg plat req = Some p"
    and "snd (resolveStatus fs cs p) = Inr st \<and> isDirectory st \<and> \<not> indexHTML cfg"
  then have "snd (tryBlock cfg plat fs cs req p) = Inl NotFoundError"
    by (simp add: tryBlock_no_indexing)
  with p show "snd (run cfg plat fs cs Wildcard req) = Inl NotFoundError"
    by (cases "shouldIgnore cfg p") (simp_all add: wildcardHandler_ignored wildcardHandler_caught)
next
  fix p st assume p: "requestPath cfg plat req = Some p"
    and "snd (resolveStatus fs cs p) = Inr st \<and> isDirectory st \<and>
            cacheGet (fileCache cs) p = None \<and>
            cacheGet (htmlCache cs) (p @ sep plat @ ''index.html'') = None \<and>
            stat fs (p @ sep plat @ ''index.html'') = None"
  then have "snd (tryBlock cfg plat fs cs req p) = Inl NotFoundError"
    by (simp add: tryBlock_no_index_file)
  with p show "snd (run cfg plat fs cs Wildcard req) = Inl NotFoundError"
    by (cases "shouldIgnore cfg p") (simp_all add: wildcardHandler_ignored wildcardHandler_caught)
next
  fix p e assume p: "requestPath cfg plat req = Some p"
    and "snd (resolveRequest cfg plat fs cs p) = Inl e"
  then have "snd (tryBlock cfg plat fs cs req p) = Inl e"
    by (auto simp: tryBlock_def split: prod.splits)
  with p show "snd (run cfg plat fs cs Wildcard req) = Inl NotFoundError"
    by (cases "shouldIgnore cfg p") (simp_all add: wildcardHandler_ignored wildcardHandler_caught)
next
  fix p filePath assume p: "requestPath cfg plat req = Some p"
    and "snd (resolveRequest cfg plat fs cs p) = Inr filePath \<and> \<not> noCache cfg \<and>
            fingerprint fs filePath = None"
  then have "snd (tryBlock cfg plat fs cs req p) = Inl FsError"
    by (simp add: tryBlock_etag_error)
  with p show "snd (run cfg plat fs cs Wildcard req) = Inl NotFoundError"
    by (cases "shouldIgnore cfg p") (simp_all add: wildcardHandler_ignored wildcardHandler_caught)
next
  fix p filePath assume p: "requestPath cfg plat req = Some p"
    and "snd (resolveRequest cfg plat fs cs p) = Inr filePath \<and> readFile fs filePath = None"
  then have "(\<exists>e. snd (tryBlock cfg plat fs cs req p) = Inl e) \<or>
     snd (tryBlock cfg plat fs cs req p) = empty 304 (headers cfg)"
    by (simp add: tryBlock_read_error)
  with p show "snd (run cfg plat fs cs Wildcard req) = Inl NotFoundError \<or>
         (\<exists>r. empty 304 (headers cfg) = Inr r \<and> snd (run cfg plat fs cs Wildcard req) = Inr r)"
    by (cases "shouldIgnore cfg p"; cases "empty 304 (headers cfg)")
      (auto simp: wildcardHandler_ignored wildcardHandler_caught)
qed

theorem C3_wildcard_outcomes_witness:
  "snd (run demoConfig Posix demoFs noCaches Wildcard (get ''/public/missing'')) = Inl NotFoundError \<and>
   snd (run (demoConfig\<lparr>indexHTML := False\<rparr>) Posix demoFs noCaches Wildcard (get ''/public/html''))
     = Inl NotFoundError \<and>
   snd (run demoConfig Posix demoFs noCaches Wildcard (get ''/public/empty'')) = Inl NotFoundError \<and>
   snd (run demoConfig Posix demoFs noCaches Wildcard (get ''/public/locked'')) = Inl NotFoundError \<and>
   snd (run demoConfig Posix demoFs noCaches Wildcard (get ''/public/vanishing'')) = Inl NotFoundError"
proof -
  have p: "requestPath cfg Posix (get (''/public/'' @ name)) = Some (''public/'' @ name)"
    if "enableDecodeURI cfg = False" "prefix cfg = ''/public''" "assets cfg = ''public''"
    for cfg name
    using that by (simp add: requestPath_def mountPrefix_def platform_defs get_def)
  have st: "snd (resolveStatus demoFs noCaches q) = (case demoStat q of None \<Rightarrow> Inl FsError | Some s \<Rightarrow> Inr s)" for q
    by (simp add: resolveStatus_def cacheGet_def cacheSet_def maxKeys_def noCaches_def demoFs_def
        split: option.splits)
  have missing: "snd (run demoConfig Posix demoFs noCaches Wildcard (get ''/public/missing'')) = Inl NotFoundError"
  proof -
    have "requestPath demoConfig Posix (get ''/public/missing'') = Some ''public/missing''"
      using p [of demoConfig "''missing''"] by (simp add: demoConfig_def defaultConfig_def)
    moreover have "cacheGet (statCache noCaches) ''public/missing'' = None"
      by (simp add: cacheGet_def noCaches_def)
    moreover have "stat demoFs ''public/missing'' = None"
      by (simp add: demoFs_def demoStat_def)
    ultimately show ?thesis
      using C3_wildcard_outcomes [of demoConfig Posix demoFs noCaches "get ''/public/missing''"]
      by simp
  qed
  have noindex: "snd (run (demoConfig\<lparr>indexHTML := False\<rparr>) Posix demoFs noCaches Wildcard (get ''/public/html''))
     = Inl NotFoundError"
  proof -
    have "requestPath (demoConfig\<lparr>indexHTML := False\<rparr>) Posix (get ''/public/html'') = Some ''public/html''"
      using p [of "demoConfig\<lparr>indexHTML := False\<rparr>" "''html''"] by (simp add: demoConfig_def defaultConfig_def)
    moreover have "snd (resolveStatus demoFs noCaches ''public/html'') = Inr \<lparr> isDirectory = True, mtime = 40 \<rparr>"
      by (simp add: st demoStat_def)
    ultimately show ?thesis
      using C3_wildcard_outcomes [of "demoConfig\<lparr>indexHTML := False\<rparr>" Posix demoFs noCaches "get ''/public/html''"]
      by simp
  qed
  have empty: "snd (run demoConfig Posix demoFs noCaches Wildcard (get ''/public/empty'')) = Inl NotFoundError"
  proof -
    have "requestPath demoConfig Posix (get ''/public/empty'') = Some ''public/empty''"
      using p [of demoConfig "''empty''"] by (simp add: demoConfig_def defaultConfig_def)
    moreover have "snd (resolveStatus demoFs noCaches ''public/empty'') = Inr \<lparr> isDirectory = True, mtime = 40 \<rparr>"
      by (simp add: st demoStat_def)
    moreover have "cacheGet (fileCache noCaches) ''public/empty'' = None"
      "cacheGet (htmlCache noCaches) (''public/empty'' @ sep Posix @ ''index.html'') = None"
      by (simp_all add: cacheGet_def noCaches_def)
    moreover have "stat demoFs (''public/empty'' @ sep Posix @ ''index.html'') = None"
      by (simp add: demoFs_def demoStat_def sep_def)
    ultimately show ?thesis
      using C3_wildcard_outcomes [of demoConfig Posix demoFs noCaches "get ''/public/empty''"]
      by simp
  qed
  have files: "snd (resolveRequest demoConfig Posix demoFs noCaches (''public/'' @ name))
                 = Inr (''public/'' @ name)"
    if "name = ''locked'' \<or> name = ''vanishing''" for name
    using that by (auto simp: resolveRequest_def resolveStatus_def resolveFilePath_def
        cacheGet_def cacheSet_def maxKeys_def demoFs_def demoStat_def noCaches_def Let_def)
  have locked: "snd (run demoConfig Posix demoFs noCaches Wildcard (get ''/public/locked'')) = Inl NotFoundError"
  proof -
    have "requestPath demoConfig Posix (get ''/public/locked'') = Some ''public/locked''"
      using p [of demoConfig "''locked''"] by (simp add: demoConfig_def defaultConfig_def)
    moreover have "snd (resolveRequest demoConfig Posix demoFs noCaches ''public/locked'') = Inr ''public/locked''"
      using files [of "''locked''"] by simp
    moreover have "\<not> noCache demoConfig" "fingerprint demoFs ''public/locked'' = None"
      by (simp_all add: demoFs_def demoConfig_def defaultConfig_def)
    ultimately show ?thesis
      using C3_wildcard_outcomes [of demoConfig Posix demoFs noCaches "get ''/public/locked''"]
      by simp
  qed
  have vanishing: "snd (run demoConfig Posix demoFs noCaches Wildcard (get ''/public/vanishing'')) = Inl NotFoundError"
  proof -
    have rp: "requestPath demoConfig Posix (get ''/public/vanishing'') = Some ''public/vanishing''"
      using p [of demoConfig "''vanishing''"] by (simp add: demoConfig_def defaultConfig_def)
    have rr: "snd (resolveRequest demoConfig Posix demoFs noCaches ''public/vanishing'') = Inr ''public/vanishing''"
      using files [of "''vanishing''"] by simp
    have rd: "readFile demoFs ''public/vanishing'' = None"
      by (simp add: demoFs_def)
    have "\<not> isCached demoFs (get ''/public/vanishing'') etag key" for etag key
      by (simp add: isCached_def get_def)
    then have "serveFile demoConfig demoFs (get ''/public/vanishing'') ''public/vanishing'' ''public/vanishing''
        = Inl FsError"
      using rd by (simp add: serveFile_def cachedResponse_def plainResponse_def generateETag_def
          Let_def split: sum.splits option.splits)
    with rr have "snd (tryBlock demoConfig Posix demoFs noCaches (get ''/public/vanishing'') ''public/vanishing'')
        = Inl FsError"
      by (auto simp: tryBlock_def split: prod.splits sum.splits)
    moreover have "\<not> shouldIgnore demoConfig ''public/vanishing''"
      by (simp add: shouldIgnore_def demoConfig_def defaultConfig_def)
    ultimately have "snd (run demoConfig Posix demoFs noCaches Wildcard (get ''/public/vanishing''))
       \<noteq> Inr r" for r
      using rp by (simp add: wildcardHandler_caught)
    with rp rr rd show ?thesis
      using C3_wildcard_outcomes [of demoConfig Posix demoFs noCaches "get ''/public/vanishing''"]
      by simp
  qed
  from missing noindex empty locked vanishing show ?thesis by simp
qed

text \<open>
  Claim C3 as stated for every request fails when percent-decoding is enabled
  and the path holds a malformed escape: \<^verbatim>\<open>decodeURI\<close> is called before the \<^verbatim>\<open>try\<close>
  block, and its URIError leaves the handler.
\<close>

theorem C3_malformed_escape_counterexample:
  "snd (run (demoConfig\<lparr>enableDecodeURI := True\<rparr>) Posix demoFs noCaches Wildcard (get ''/public/%''))
     = Inl URIError"
  by (simp add: wildcardHandler_def requestPath_def mountPrefix_def URL_PATH_SEP_def
      decodeURI_def demo_defs)




text \<open>
  Claim C5. When If-None-Match does not match, the decision compares
  If-Modified-Since with the last-modified time of the resolved file actually
  served: the evaluator is called with a key that identifies that file, the
  index file when a directory resolves to its \<^verbatim>\<open>index.html\<close>.
  The wildcard handler passes the requested path, and the second route of
  static mode passes the URL path. For the directory \<^verbatim>\<open>html\<close> (changed at 40)
  with \<^verbatim>\<open>index.html\<close> (changed at 100), a request for the directory with
  If-Modified-Since 70 is answered 304, while the same file requested by its
  own path is answered 200; in static mode the route \<^verbatim>\<open>/public/html\<close> answers
  200 to If-Modified-Since 200, where the route \<^verbatim>\<open>/public/html/index.html\<close> for
  the same file answers 304.
\<close>

theorem C5_key_is_not_the_served_file:
  "snd (run demoConfig Posix demoFs noCaches Wildcard
          \<lparr> pathname = ''/public/html'', ifNoneMatch = None, ifModifiedSince = Some 70 \<rparr>)
     = Inr \<lparr> status = 304, responseHeaders = [], body = None \<rparr> \<and>
   snd (run demoConfig Posix demoFs noCaches Wildcard
          \<lparr> pathname = ''/public/html/index.html'', ifNoneMatch = None, ifModifiedSince = Some 70 \<rparr>)
     = Inr \<lparr> status = 200,
             responseHeaders = [(''Etag'', ''etag of public/html/index.html''),
                                (''Cache-Control'', ''public, max-age=86400'')],
             body = Some ''content of public/html/index.html'' \<rparr> \<and>
   staticPlugin (demoConfig\<lparr>alwaysStatic := True\<rparr>) Posix False demoFs [''/srv/public/html/index.html'']
     = Inr [\<lparr> httpMethod = ''GET'', path = ''/public/html/index.html'',
               handler = StaticCached ''etag of /srv/public/html/index.html''
                           ''/srv/public/html/index.html'' ''/srv/public/html/index.html'' \<rparr>,
            \<lparr> httpMethod = ''GET'', path = ''/public/html'',
               handler = StaticCached ''etag of /srv/public/html/index.html''
                           ''/public/html/index.html'' ''/srv/public/html/index.html'' \<rparr>] \<and>
   snd (run (demoConfig\<lparr>alwaysStatic := True\<rparr>) Posix demoFs noCaches
          (StaticCached ''etag of /srv/public/html/index.html''
             ''/srv/public/html/index.html'' ''/srv/public/html/index.html'')
          \<lparr> pathname = ''/public/html/index.html'', ifNoneMatch = None, ifModifiedSince = Some 200 \<rparr>)
     = Inr \<lparr> status = 304, responseHeaders = [], body = None \<rparr> \<and>
   snd (run (demoConfig\<lparr>alwaysStatic := True\<rparr>) Posix demoFs noCaches
          (StaticCached ''etag of /srv/public/html/index.html''
             ''/public/html/index.html'' ''/srv/public/html/index.html'')
          \<lparr> pathname = ''/public/html'', ifNoneMatch = None, ifModifiedSince = Some 200 \<rparr>)
     = Inr \<lparr> status = 200,
             responseHeaders = [(''Etag'', ''etag of /srv/public/html/index.html''),
                                (''Cache-Control'', ''public, max-age=86400'')],
             body = Some ''content of /srv/public/html/index.html'' \<rparr>"
proof (intro conjI)
  show "snd (run demoConfig Posix demoFs noCaches Wildcard
          \<lparr> pathname = ''/public/html'', ifNoneMatch = None, ifModifiedSince = Some 70 \<rparr>)
     = Inr \<lparr> status = 304, responseHeaders = [], body = None \<rparr>"
    by (simp add: string_defs platform_defs mountPrefix_def shouldIgnore_def generateETag_def
        dynamic_defs response_defs header_defs demo_defs Let_def)
  show "snd (run demoConfig Posix demoFs noCaches Wildcard
          \<lparr> pathname = ''/public/html/index.html'', ifNoneMatch = None, ifModifiedSince = Some 70 \<rparr>)
     = Inr \<lparr> status = 200,
             responseHeaders = [(''Etag'', ''etag of public/html/index.html''),
                                (''Cache-Control'', ''public, max-age=86400'')],
             body = Some ''content of public/html/index.html'' \<rparr>"
    by (simp add: string_defs platform_defs mountPrefix_def shouldIgnore_def generateETag_def
        dynamic_defs response_defs header_defs demo_defs Let_def)
  show "staticPlugin (demoConfig\<lparr>alwaysStatic := True\<rparr>) Posix False demoFs [''/srv/public/html/index.html'']
     = Inr [\<lparr> httpMethod = ''GET'', path = ''/public/html/index.html'',
               handler = StaticCached ''etag of /srv/public/html/index.html''
                           ''/srv/public/html/index.html'' ''/srv/public/html/index.html'' \<rparr>,
            \<lparr> httpMethod = ''GET'', path = ''/public/html'',
               handler = StaticCached ''etag of /srv/public/html/index.html''
                           ''/public/html/index.html'' ''/srv/public/html/index.html'' \<rparr>]"
    by (simp add: string_defs platform_defs static_defs demo_defs Let_def)
  show "snd (run (demoConfig\<lparr>alwaysStatic := True\<rparr>) Posix demoFs noCaches
          (StaticCached ''etag of /srv/public/html/index.html''
             ''/srv/public/html/index.html'' ''/srv/public/html/index.html'')
          \<lparr> pathname = ''/public/html/index.html'', ifNoneMatch = None, ifModifiedSince = Some 200 \<rparr>)
     = Inr \<lparr> status = 304, responseHeaders = [], body = None \<rparr>"
    by (simp add: response_defs header_defs demo_defs)
  show "snd (run (demoConfig\<lparr>alwaysStatic := True\<rparr>) Posix demoFs noCaches
          (StaticCached ''etag of /srv/public/html/index.html''
             ''/public/html/index.html'' ''/srv/public/html/index.html'')
          \<lparr> pathname = ''/public/html'', ifNoneMatch = None, ifModifiedSince = Some 200 \<rparr>)
     = Inr \<lparr> status = 200,
             responseHeaders = [(''Etag'', ''etag of /srv/public/html/index.html''),
                                (''Cache-Control'', ''public, max-age=86400'')],
             body = Some ''content of /srv/public/html/index.html'' \<rparr>"
    by (simp add: string_defs response_defs header_defs demo_defs Let_def)
qed

text \<open>
  Claim C6. With the disable-cache flag set, in static and in dynamic mode, the
  conditional evaluator is never invoked, every response to a resolvable file is
  a full 200 response, 304 is never returned, and the response carries the
  configured headers only, so neither \<^verbatim>\<open>Etag\<close> nor \<^verbatim>\<open>Cache-Control\<close> is added.
  For every route the plugin returns: a response has status 200, the header list
  of the configured headers and the bytes of a file as its body, and \<^verbatim>\<open>get\<close>
  finds no \<^verbatim>\<open>Etag\<close> and no \<^verbatim>\<open>Cache-Control\<close> in it unless a header of that name
  is configured; the outcome does not depend on the validators of the request
  nor on what the ETag generator would compute; and a file that resolves and
  can be read is answered in full, where the \<^verbatim>\<open>Response\<close> constructor accepts the
  configured headers.
\<close>

theorem C6_no_cache:
  assumes "noCache cfg"
    and "staticPlugin cfg plat envProduction fs0 files = Inr routes"
    and "r \<in> set routes"
  shows "(\<forall>resp. snd (run cfg plat fs cs (handler r) req) = Inr resp \<longrightarrow>
            status resp = 200 \<and> newHeaders (headers cfg) = Inr (responseHeaders resp) \<and>
            responseHeaders resp = headerList (headers cfg) \<and>
            (\<exists>filePath b. readFile fs filePath = Some b \<and> body resp = Some b) \<and>
            ((\<forall>n \<in> fst ` set (DAList.impl_of (headers cfg)). lower n \<noteq> ''etag'') \<longrightarrow>
               headersGet (responseHeaders resp) ''Etag'' = None) \<and>
            ((\<forall>n \<in> fst ` set (DAList.impl_of (headers cfg)). lower n \<noteq> ''cache-control'') \<longrightarrow>
               headersGet (responseHeaders resp) ''Cache-Control'' = None)) \<and>
         (\<forall>req' g. pathname req' = pathname req \<longrightarrow>
            run cfg plat (fs\<lparr>fingerprint := g\<rparr>) cs (handler r) req'
              = run cfg plat fs cs (handler r) req) \<and>
         (\<forall>filePath b hl. handler r = StaticNoCache filePath \<and> readFile fs filePath = Some b \<and>
            newHeaders (headers cfg) = Inr hl \<longrightarrow>
            snd (run cfg plat fs cs (handler r) req)
              = Inr \<lparr> status = 200, responseHeaders = hl, body = Some b \<rparr>) \<and>
         (\<forall>p filePath b hl. handler r = Wildcard \<and> requestPath cfg plat req = Some p \<and>
            \<not> shouldIgnore cfg p \<and> snd (resolveRequest cfg plat fs cs p) = Inr filePath \<and>
            readFile fs filePath = Some b \<and> newHeaders (headers cfg) = Inr hl \<longrightarrow>
            snd (run cfg plat fs cs (handler r) req)
              = Inr \<lparr> status = 200, responseHeaders = hl, body = Some b \<rparr>)"
proof -
  have plain: "status resp = 200 \<and> newHeaders (headers cfg) = Inr (responseHeaders resp) \<and>
      responseHeaders resp = headerList (headers cfg) \<and>
      (\<exists>filePath b. readFile fs filePath = Some b \<and> body resp = Some b) \<and>
      ((\<forall>n \<in> fst ` set (DAList.impl_of (headers cfg)). lower n \<noteq> ''etag'') \<longrightarrow>
         headersGet (responseHeaders resp) ''Etag'' = None) \<and>
      ((\<forall>n \<in> fst ` set (DAList.impl_of (headers cfg)). lower n \<noteq> ''cache-control'') \<longrightarrow>
         headersGet (responseHeaders resp) ''Cache-Control'' = None)"
    if "plainResponse cfg fs f = Inr resp" for f resp
  proof -
    from plainResponse_result [OF that] obtain b where
      b: "readFile fs f = Some b" "status resp = 200" "body resp = Some b"
      and h: "newHeaders (headers cfg) = Inr (responseHeaders resp)"
      by blast
    from h have l: "responseHeaders resp = headerList (headers cfg)"
      by (rule newHeaders_headerList)
    have "headersGet (responseHeaders resp) ''Etag'' = None"
      if "\<forall>n \<in> fst ` set (DAList.impl_of (headers cfg)). lower n \<noteq> ''etag''"
      unfolding l using that by (intro headersGet_none) (simp add: lower_names)
    moreover have "headersGet (responseHeaders resp) ''Cache-Control'' = None"
      if "\<forall>n \<in> fst ` set (DAList.impl_of (headers cfg)). lower n \<noteq> ''cache-control''"
      unfolding l using that by (intro headersGet_none) (simp add: lower_names)
    ultimately show ?thesis using b h l by blast
  qed
  have full: "plainResponse cfg fs f = Inr \<lparr> status = 200, responseHeaders = hl, body = Some b \<rparr>"
    if "readFile fs f = Some b" "newHeaders (headers cfg) = Inr hl" for f b hl
    using that by (simp add: plainResponse_def fullResponse_def newResponse_ok)
  from staticPlugin_handler [OF assms(2,3)] assms(1)
  consider "handler r = Wildcard" | f where "handler r = StaticNoCache f"
    by auto
  then show ?thesis
  proof cases
    case 1
    have a: "\<exists>filePath. plainResponse cfg fs filePath = Inr resp"
      if "snd (wildcardHandler cfg plat fs cs req) = Inr resp" for resp
    proof -
      from wildcardHandler_response [OF that] obtain p filePath where
        "serveFile cfg fs req p filePath = Inr resp" by blast
      with assms(1) have "plainResponse cfg fs filePath = Inr resp"
        by (simp add: serveFile_noCache)
      then show ?thesis ..
    qed
    have b: "snd (wildcardHandler cfg plat fs cs req)
              = Inr \<lparr> status = 200, responseHeaders = hl, body = Some b \<rparr>"
      if "requestPath cfg plat req = Some p" "\<not> shouldIgnore cfg p"
        "snd (resolveRequest cfg plat fs cs p) = Inr filePath" "readFile fs filePath = Some b"
        "newHeaders (headers cfg) = Inr hl"
      for p filePath b hl
      using that assms(1)
      by (simp add: wildcardHandler_serves serveFile_noCache full)
    show ?thesis
    proof (intro conjI allI impI)
      fix resp assume "snd (run cfg plat fs cs (handler r) req) = Inr resp"
      with 1 a obtain filePath where p: "plainResponse cfg fs filePath = Inr resp"
        by auto
      note plain [OF p]
      then show "status resp = 200"
        and "newHeaders (headers cfg) = Inr (responseHeaders resp)"
        and "responseHeaders resp = headerList (headers cfg)"
        and "\<exists>filePath b. readFile fs filePath = Some b \<and> body resp = Some b"
        by blast+
      {
        assume "\<forall>n \<in> fst ` set (DAList.impl_of (headers cfg)). lower n \<noteq> ''etag''"
        with plain [OF p] show "headersGet (responseHeaders resp) ''Etag'' = None" by blast
      }
      {
        assume "\<forall>n \<in> fst ` set (DAList.impl_of (headers cfg)). lower n \<noteq> ''cache-control''"
        with plain [OF p] show "headersGet (responseHeaders resp) ''Cache-Control'' = None"
          by blast
      }
    next
      fix req' :: request and g :: "string \<Rightarrow> string option"
      assume "pathname req' = pathname req"
      with 1 wildcardHandler_noCache_independent [OF assms(1)]
      show "run cfg plat (fs\<lparr>fingerprint := g\<rparr>) cs (handler r) req'
              = run cfg plat fs cs (handler r) req"
        by simp
    next
      fix filePath b hl
      assume "handler r = StaticNoCache filePath \<and> readFile fs filePath = Some b \<and>
            newHeaders (headers cfg) = Inr hl"
      with 1 show "snd (run cfg plat fs cs (handler r) req)
              = Inr \<lparr> status = 200, responseHeaders = hl, body = Some b \<rparr>"
        by simp
    next
      fix p filePath b hl
      assume "handler r = Wildcard \<and> requestPath cfg plat req = Some p \<and>
            \<not> shouldIgnore cfg p \<and> snd (resolveRequest cfg plat fs cs p) = Inr filePath \<and>
            readFile fs filePath = Some b \<and> newHeaders (headers cfg) = Inr hl"
      with 1 b show "snd (run cfg plat fs cs (handler r) req)
              = Inr \<lparr> status = 200, responseHeaders = hl, body = Some b \<rparr>"
        by simp
    qed
  next
    case 2
    show ?thesis
    proof (intro conjI allI impI)
      fix resp assume "snd (run cfg plat fs cs (handler r) req) = Inr resp"
      with 2 have p: "plainResponse cfg fs f = Inr resp" by simp
      note plain [OF p]
      then show "status resp = 200"
        and "newHeaders (headers cfg) = Inr (responseHeaders resp)"
        and "responseHeaders resp = headerList (headers cfg)"
        and "\<exists>filePath b. readFile fs filePath = Some b \<and> body resp = Some b"
        by blast+
      {
        assume "\<forall>n \<in> fst ` set (DAList.impl_of (headers cfg)). lower n \<noteq> ''etag''"
        with plain [OF p] show "headersGet (responseHeaders resp) ''Etag'' = None" by blast
      }
      {
        assume "\<forall>n \<in> fst ` set (DAList.impl_of (headers cfg)). lower n \<noteq> ''cache-control''"
        with plain [OF p] show "headersGet (responseHeaders resp) ''Cache-Control'' = None"
          by blast
      }
    next
      fix req' :: request and g :: "string \<Rightarrow> string option"
      assume "pathname req' = pathname req"
      with 2 show "run cfg plat (fs\<lparr>fingerprint := g\<rparr>) cs (handler r) req'
              = run cfg plat fs cs (handler r) req"
        by (simp add: plainResponse_def split: option.splits)
    next
      fix filePath b hl
      assume "handler r = StaticNoCache filePath \<and> readFile fs filePath = Some b \<and>
            newHeaders (headers cfg) = Inr hl"
      with 2 full show "snd (run cfg plat fs cs (handler r) req)
              = Inr \<lparr> status = 200, responseHeaders = hl, body = Some b \<rparr>"
        by simp
    next
      fix p filePath b hl
      assume "handler r = Wildcard \<and> requestPath cfg plat req = Some p \<and>
            \<not> shouldIgnore cfg p \<and> snd (resolveRequest cfg plat fs cs p) = Inr filePath \<and>
            readFile fs filePath = Some b \<and> newHeaders (headers cfg) = Inr hl"
      with 2 show "snd (run cfg plat fs cs (handler r) req)
              = Inr \<lparr> status = 200, responseHeaders = hl, body = Some b \<rparr>"
        by simp
    qed
  qed
qed

theorem C6_no_cache_witness:
  "snd (run (demoConfig\<lparr>noCache := True, alwaysStatic := True,
                        headers := Alist [(''X-Served-By'', '' vafast '')]\<rparr>)
          Posix demoFs noCaches (StaticNoCache ''/srv/public/a.txt'')
          \<lparr> pathname = ''/public/a.txt'', ifNoneMatch = Some ''etag of /srv/public/a.txt'',
            ifModifiedSince = Some 1000 \<rparr>)
     = Inr \<lparr> status = 200, responseHeaders = [(''X-Served-By'', ''vafast'')],
             body = Some ''content of /srv/public/a.txt'' \<rparr> \<and>
   headersGet [(''X-Served-By'', ''vafast'')] ''Etag'' = None \<and>
   headersGet [(''X-Served-By'', ''vafast'')] ''Cache-Control'' = None \<and>
   snd (run (demoConfig\<lparr>noCache := True\<rparr>) Posix demoFs noCaches Wildcard
          \<lparr> pathname = ''/public/a.txt'', ifNoneMatch = Some ''etag of public/a.txt'',
            ifModifiedSince = Some 1000 \<rparr>)
     = Inr \<lparr> status = 200, responseHeaders = [], body = Some ''content of public/a.txt'' \<rparr>"
proof -
  let ?obj = "Alist [(''X-Served-By'', '' vafast '')]"
  let ?static = "demoConfig\<lparr>noCache := True, alwaysStatic := True, headers := ?obj\<rparr>"
  let ?dynamic = "demoConfig\<lparr>noCache := True\<rparr>"
  let ?req = "\<lambda>e. \<lparr> pathname = ''/public/a.txt'', ifNoneMatch = Some e, ifModifiedSince = Some 1000 \<rparr>"
  let ?hl = "[(''X-Served-By'', ''vafast'')]"
  let ?r = "\<lparr> httpMethod = ''GET'', path = ''/public/a.txt'',
              handler = StaticNoCache ''/srv/public/a.txt'' \<rparr>"
  let ?w = "\<lparr> httpMethod = ''GET'', path = ''/public/*'', handler = Wildcard \<rparr>"
  have s: "staticPlugin ?static Posix False demoFs [''/srv/public/a.txt''] = Inr [?r]"
    by (simp add: string_defs platform_defs static_defs demo_defs Let_def)
  have d: "staticPlugin ?dynamic Posix False demoFs [''/srv/public/a.txt''] = Inr [?w]"
    by (simp add: static_defs platform_defs demo_defs)
  have nc: "noCache ?static" "noCache ?dynamic"
    by simp_all
  have mem: "?r \<in> set [?r]" "?w \<in> set [?w]"
    by simp_all
  have io: "DAList.impl_of ?obj = [(''X-Served-By'', '' vafast '')]"
    by (simp add: impl_of_Alist)
  have h: "newHeaders (headers ?static) = Inr ?hl" "newHeaders (headers ?dynamic) = Inr []"
    by (simp_all add: newHeaders_def headerList_def io header_defs demoConfig_def
        defaultConfig_def DAList.empty.rep_eq)
  have rd: "readFile demoFs ''/srv/public/a.txt'' = Some ''content of /srv/public/a.txt''"
    "readFile demoFs ''public/a.txt'' = Some ''content of public/a.txt''"
    by (simp_all add: demoFs_def)
  have rp: "requestPath ?dynamic Posix (?req e) = Some ''public/a.txt''" for e
    by (simp add: requestPath_def mountPrefix_def platform_defs demoConfig_def defaultConfig_def)
  have ig: "\<not> shouldIgnore ?dynamic ''public/a.txt''"
    by (simp add: shouldIgnore_def demoConfig_def defaultConfig_def)
  have rr: "snd (resolveRequest ?dynamic Posix demoFs noCaches ''public/a.txt'') = Inr ''public/a.txt''"
    by (simp add: resolveRequest_def resolveStatus_def resolveFilePath_def cacheGet_def
        cacheSet_def maxKeys_def demoFs_def demoStat_def demoConfig_def defaultConfig_def
        noCaches_def Let_def)
  note static = C6_no_cache [where cfg = ?static and plat = Posix and envProduction = False
      and ?fs0.0 = demoFs and files = "[''/srv/public/a.txt'']" and fs = demoFs and cs = noCaches
      and req = "?req ''etag of /srv/public/a.txt''" and r = ?r, OF nc(1) s mem(1)]
  note dynamic = C6_no_cache [where cfg = ?dynamic and plat = Posix and envProduction = False
      and ?fs0.0 = demoFs and files = "[''/srv/public/a.txt'']" and fs = demoFs and cs = noCaches
      and req = "?req ''etag of public/a.txt''" and r = ?w, OF nc(2) d mem(2)]
  have 1: "snd (run ?static Posix demoFs noCaches (StaticNoCache ''/srv/public/a.txt'')
             (?req ''etag of /srv/public/a.txt''))
     = Inr \<lparr> status = 200, responseHeaders = ?hl, body = Some ''content of /srv/public/a.txt'' \<rparr>"
    using static [THEN conjunct2, THEN conjunct2, THEN conjunct1, rule_format,
        of "''/srv/public/a.txt''" "''content of /srv/public/a.txt''" ?hl] rd(1) h(1)
    by simp
  have nm: "\<forall>n \<in> fst ` set (DAList.impl_of (headers ?static)). lower n \<noteq> ''etag''"
    "\<forall>n \<in> fst ` set (DAList.impl_of (headers ?static)). lower n \<noteq> ''cache-control''"
    by (simp_all add: io lower_def lowerChar_def)
  from 1 have "snd (run ?static Posix demoFs noCaches (handler ?r)
             (?req ''etag of /srv/public/a.txt''))
     = Inr \<lparr> status = 200, responseHeaders = ?hl, body = Some ''content of /srv/public/a.txt'' \<rparr>"
    by simp
  note resp = static [THEN conjunct1, rule_format, OF this]
  have 2: "headersGet ?hl ''Etag'' = None"
    using resp [THEN conjunct2, THEN conjunct2, THEN conjunct2, THEN conjunct2, THEN conjunct1,
        THEN mp, OF nm(1)]
    by simp
  have cc: "headersGet ?hl ''Cache-Control'' = None"
    using resp [THEN conjunct2, THEN conjunct2, THEN conjunct2, THEN conjunct2, THEN conjunct2,
        THEN mp, OF nm(2)]
    by simp
  have 3: "snd (run ?dynamic Posix demoFs noCaches Wildcard (?req ''etag of public/a.txt''))
     = Inr \<lparr> status = 200, responseHeaders = [], body = Some ''content of public/a.txt'' \<rparr>"
    using dynamic [THEN conjunct2, THEN conjunct2, THEN conjunct2, rule_format,
        of "''public/a.txt''" "''public/a.txt''" "''content of public/a.txt''" "[]"]
      rd(2) rp ig rr h(2)
    by simp
  from 1 2 cc 3 show ?thesis by simp
qed




text \<open>
  Claim C8. In static mode with directory indexes enabled, a route whose path
  ends with \<^verbatim>\<open>/index.html\<close> is followed by a second route at that path with the
  trailing \<^verbatim>\<open>/index.html\<close> removed. The code removes the first occurrence of
  \<^verbatim>\<open>/index.html\<close> instead: for \<^verbatim>\<open>index.html.bak/index.html\<close> the second route is
  \<^verbatim>\<open>/public.bak/index.html\<close>, where the claim has \<^verbatim>\<open>/public/index.html.bak\<close>.
\<close>

theorem C8_first_occurrence_is_removed:
  "staticPlugin (demoConfig\<lparr>alwaysStatic := True\<rparr>) Posix False demoFs
       [''/srv/public/index.html.bak/index.html'']
     = Inr [\<lparr> httpMethod = ''GET'', path = ''/public/index.html.bak/index.html'',
               handler = StaticCached ''etag of /srv/public/index.html.bak/index.html''
                           ''/srv/public/index.html.bak/index.html''
                           ''/srv/public/index.html.bak/index.html'' \<rparr>,
            \<lparr> httpMethod = ''GET'', path = ''/public.bak/index.html'',
               handler = StaticCached ''etag of /srv/public/index.html.bak/index.html''
                           ''/public/index.html.bak/index.html''
                           ''/srv/public/index.html.bak/index.html'' \<rparr>]"
  by (simp add: string_defs platform_defs static_defs demo_defs Let_def)

text \<open>
  Claim C9. In static mode with the strip-extension option, the final \<^verbatim>\<open>.ext\<close>
  suffix is stripped from the generated URL path only; the file that is read
  and served is unchanged: \<^verbatim>\<open>foo.png\<close> is served at the URL path with \<^verbatim>\<open>.png\<close>
  removed, and the handler still reads \<^verbatim>\<open>foo.png\<close>.
  For a file whose relative path is \<open>base\<close>, a dot and \<open>ext\<close> without a dot, the
  route has the URL path built from \<open>base\<close>; its handler is the closure over
  the untouched absolute path, and every full response it gives carries the
  bytes of that file; and where \<open>base\<close> ends in an ordinary file name, the URL
  path followed by the dot and \<open>ext\<close> is the URL path the file has without the
  option.
\<close>

theorem C9_extension_stripped_from_url_only:
  assumes "noExtension cfg"
    and "staticPlugin cfg plat envProduction fs0 files = Inr routes"
    and "alwaysStatic cfg \<or> (envProduction \<and> int (length files) \<le> staticLimit cfg)"
    and "f \<in> set files" "f \<noteq> []" "\<not> shouldIgnore cfg f"
    and "replace f (assetsDir cfg plat) [] = base @ ''.'' @ ext" "CHR ''.'' \<notin> set ext"
  shows "\<exists>r \<in> set routes.
           path r = pathName cfg plat base \<and>
           (\<exists>etag. handler r = (if noCache cfg then StaticNoCache f else StaticCached etag f f)) \<and>
           (\<forall>fs cs req resp. snd (run cfg plat fs cs (handler r) req) = Inr resp \<and> status resp = 200
              \<longrightarrow> body resp = readFile fs f) \<and>
           (\<forall>dir stem. base = dir @ stem \<and> (dir = [] \<or> last dir = sepChar plat) \<and>
              stem \<noteq> [] \<and> stem \<noteq> ''.'' \<and> stem \<noteq> ''..'' \<and>
              sepChar plat \<notin> set stem \<and> sepChar plat \<notin> set ext
              \<longrightarrow> path r @ ''.'' @ ext = pathName cfg plat (base @ ''.'' @ ext))"
proof -
  from staticPlugin_file_route [OF assms(2-6)] obtain etag where
    r: "\<lparr> httpMethod = ''GET'', path = pathName cfg plat (relativePath cfg plat f),
          handler = (if noCache cfg then StaticNoCache f else StaticCached etag f f) \<rparr> \<in> set routes"
    (is "?r \<in> _")
    by blast
  have rel: "relativePath cfg plat f = base"
    using assms(1,7,8) by (rule relativePath_last_dot)
  have "path ?r = pathName cfg plat base"
    by (simp add: rel)
  moreover have "\<exists>e. handler ?r = (if noCache cfg then StaticNoCache f else StaticCached e f f)"
    by auto
  moreover have "body resp = readFile fs f"
    if "snd (run cfg plat fs cs (handler ?r) req) = Inr resp" "status resp = 200"
    for fs cs req resp
    using static_handler_body [OF _ that] by simp
  moreover have "path ?r @ ''.'' @ ext = pathName cfg plat (base @ ''.'' @ ext)"
    if "base = dir @ stem" "dir = [] \<or> last dir = sepChar plat"
      "stem \<noteq> []" "stem \<noteq> ''.''" "stem \<noteq> ''..''"
      "sepChar plat \<notin> set stem" "sepChar plat \<notin> set ext"
    for dir stem
    using pathName_extension [OF that(2-7), of cfg] that(1) by (simp add: rel)
  ultimately show ?thesis using r by blast
qed

theorem C9_extension_stripped_from_url_only_witness:
  "staticPlugin (demoConfig\<lparr>alwaysStatic := True, noExtension := True\<rparr>) Posix False demoFs
       [''/srv/public/img/foo.png'']
     = Inr [\<lparr> httpMethod = ''GET'', path = ''/public/img/foo'',
               handler = StaticCached ''etag of /srv/public/img/foo.png''
                           ''/srv/public/img/foo.png'' ''/srv/public/img/foo.png'' \<rparr>] \<and>
   pathName (demoConfig\<lparr>alwaysStatic := True, noExtension := True\<rparr>) Posix ''/img/foo''
     = ''/public/img/foo'' \<and>
   pathName (demoConfig\<lparr>alwaysStatic := True, noExtension := True\<rparr>) Posix ''/img/foo.png''
     = ''/public/img/foo.png'' \<and>
   (\<exists>resp. snd (run (demoConfig\<lparr>alwaysStatic := True, noExtension := True\<rparr>) Posix demoFs noCaches
                 (StaticCached ''etag of /srv/public/img/foo.png''
                    ''/srv/public/img/foo.png'' ''/srv/public/img/foo.png'')
                 (get ''/public/img/foo'')) = Inr resp \<and>
           body resp = Some ''content of /srv/public/img/foo.png'')"
proof -
  let ?cfg = "demoConfig\<lparr>alwaysStatic := True, noExtension := True\<rparr>"
  let ?f = "''/srv/public/img/foo.png''"
  let ?h = "StaticCached ''etag of /srv/public/img/foo.png'' ?f ?f"
  let ?r = "\<lparr> httpMethod = ''GET'', path = ''/public/img/foo'', handler = ?h \<rparr>"
  have s: "staticPlugin ?cfg Posix False demoFs [?f] = Inr [?r]"
    by (simp add: string_defs platform_defs static_defs demo_defs Let_def)
  have ig: "\<not> shouldIgnore ?cfg ?f"
    by (simp add: shouldIgnore_def demoConfig_def defaultConfig_def)
  have rel: "replace ?f (assetsDir ?cfg Posix) [] = ''/img/foo'' @ ''.'' @ ''png''"
    by (simp add: assetsDir_def sep_def demoConfig_def defaultConfig_def)
  have nc: "\<not> isCached demoFs (get q) etag key" for q etag key
    by (simp add: isCached_def get_def)
  have rd: "readFile demoFs ?f = Some ''content of /srv/public/img/foo.png''"
    by (simp add: demoFs_def)
  have "\<exists>hs. cachedResponse ?cfg demoFs (get ''/public/img/foo'') ''etag of /srv/public/img/foo.png'' ?f ?f
      = Inr \<lparr> status = 200, responseHeaders = hs, body = Some ''content of /srv/public/img/foo.png'' \<rparr>"
    by (simp add: cachedResponse_full [OF nc rd] string_defs response_defs header_defs demo_defs)
  then obtain hs where run: "snd (run ?cfg Posix demoFs noCaches ?h (get ''/public/img/foo''))
      = Inr \<lparr> status = 200, responseHeaders = hs, body = Some ''content of /srv/public/img/foo.png'' \<rparr>"
    by auto
  have ne: "noExtension ?cfg" and md: "alwaysStatic ?cfg \<or> (False \<and> int (length [?f]) \<le> staticLimit ?cfg)"
    by (simp_all add: demoConfig_def defaultConfig_def)
  have mem: "?f \<in> set [?f]" and nz: "?f \<noteq> []" and nd: "CHR ''.'' \<notin> set ''png''"
    by simp_all
  from C9_extension_stripped_from_url_only [OF ne s md mem nz ig rel nd]
  obtain r where r: "r \<in> set [?r]"
    and a: "path r = pathName ?cfg Posix ''/img/foo''"
    and b: "\<forall>fs cs req resp. snd (run ?cfg Posix fs cs (handler r) req) = Inr resp \<and> status resp = 200
              \<longrightarrow> body resp = readFile fs ?f"
    and c: "\<forall>dir stem. ''/img/foo'' = dir @ stem \<and> (dir = [] \<or> last dir = sepChar Posix) \<and>
              stem \<noteq> [] \<and> stem \<noteq> ''.'' \<and> stem \<noteq> ''..'' \<and>
              sepChar Posix \<notin> set stem \<and> sepChar Posix \<notin> set ''png''
              \<longrightarrow> path r @ ''.'' @ ''png'' = pathName ?cfg Posix (''/img/foo'' @ ''.'' @ ''png'')"
    by blast
  from r have rr: "r = ?r" by simp
  from a rr have 1: "pathName ?cfg Posix ''/img/foo'' = ''/public/img/foo''"
    by simp
  from c [rule_format, of "''/img/''" "''foo''"] rr
  have 2: "pathName ?cfg Posix ''/img/foo.png'' = ''/public/img/foo.png''"
    by simp
  from s 1 2 run show ?thesis by simp
qed

text \<open>
  Claim C10. With the strip-extension option the relative path is cut at its
  last dot, wherever that is: a file without any dot in its relative path loses
  the whole relative path, and a file whose last dot lies in a directory name
  keeps the relative path up to that dot.
  Amended in what the route's path then is: not always the bare concatenation
  with the prefix. Where the separator is not the slash it is the prefix
  followed by the cut path; on POSIX it is \<^verbatim>\<open>path.join\<close> of the prefix and the cut
  path, which for a file without a dot is the normalised prefix, and \<^verbatim>\<open>.\<close> when
  the prefix is empty. The prefix \<^verbatim>\<open>/\<close> counts as empty throughout.
\<close>

theorem C10_strip_at_last_dot:
  assumes "noExtension cfg"
    and "staticPlugin cfg plat envProduction fs0 files = Inr routes"
    and "alwaysStatic cfg \<or> (envProduction \<and> int (length files) \<le> staticLimit cfg)"
    and "f \<in> set files" "f \<noteq> []" "\<not> shouldIgnore cfg f"
  shows "\<exists>r \<in> set routes.
           (\<exists>etag. handler r = (if noCache cfg then StaticNoCache f else StaticCached etag f f)) \<and>
           (CHR ''.'' \<notin> set (replace f (assetsDir cfg plat) []) \<longrightarrow>
              path r = (if plat = Posix
                        then (if mountPrefix cfg = [] then ''.'' else normalize (mountPrefix cfg))
                        else mountPrefix cfg)) \<and>
           (\<forall>base ext. replace f (assetsDir cfg plat) [] = base @ ''.'' @ ext \<and>
              CHR ''.'' \<notin> set ext \<longrightarrow>
              path r = (if plat = Posix then pathJoin (mountPrefix cfg) base
                        else mountPrefix cfg @ join ''/'' (split (sepChar plat) base)))"
proof -
  from staticPlugin_file_route [OF assms(2-6)] obtain etag where
    r: "\<lparr> httpMethod = ''GET'', path = pathName cfg plat (relativePath cfg plat f),
          handler = (if noCache cfg then StaticNoCache f else StaticCached etag f f) \<rparr> \<in> set routes"
    (is "?r \<in> _")
    by blast
  have "\<exists>e. handler ?r = (if noCache cfg then StaticNoCache f else StaticCached e f f)"
    by auto
  moreover have "path ?r = (if plat = Posix
                        then (if mountPrefix cfg = [] then ''.'' else normalize (mountPrefix cfg))
                        else mountPrefix cfg)"
    if "CHR ''.'' \<notin> set (replace f (assetsDir cfg plat) [])"
    using relativePath_no_dot [OF assms(1) that]
    by (cases plat) (simp_all add: pathName_def platform_defs)
  moreover have "path ?r = (if plat = Posix then pathJoin (mountPrefix cfg) base
                        else mountPrefix cfg @ join ''/'' (split (sepChar plat) base))"
    if "replace f (assetsDir cfg plat) [] = base @ ''.'' @ ext" "CHR ''.'' \<notin> set ext"
    for base ext
    using relativePath_last_dot [OF assms(1) that]
    by (cases plat) (simp_all add: pathName_def sep_def URL_PATH_SEP_def isFSSepUnsafe_def)
  ultimately show ?thesis using r by blast
qed

theorem C10_strip_at_last_dot_witness:
  "staticPlugin (demoConfig\<lparr>alwaysStatic := True, noExtension := True\<rparr>) Posix False demoFs
       [''/srv/public/README'']
     = Inr [\<lparr> httpMethod = ''GET'', path = ''/public'',
               handler = StaticCached ''etag of /srv/public/README'' ''/srv/public/README''
                           ''/srv/public/README'' \<rparr>] \<and>
   normalize (mountPrefix (demoConfig\<lparr>alwaysStatic := True, noExtension := True\<rparr>)) = ''/public'' \<and>
   staticPlugin (demoConfig\<lparr>alwaysStatic := True, noExtension := True\<rparr>) Posix False demoFs
       [''/srv/public/v1.2/README'']
     = Inr [\<lparr> httpMethod = ''GET'', path = ''/public/v1'',
               handler = StaticCached ''etag of /srv/public/v1.2/README''
                           ''/srv/public/v1.2/README'' ''/srv/public/v1.2/README'' \<rparr>] \<and>
   pathJoin (mountPrefix (demoConfig\<lparr>alwaysStatic := True, noExtension := True\<rparr>)) ''/v1''
     = ''/public/v1''"
proof -
  let ?cfg = "demoConfig\<lparr>alwaysStatic := True, noExtension := True\<rparr>"
  let ?f = "''/srv/public/README''"
  let ?g = "''/srv/public/v1.2/README''"
  let ?r = "\<lparr> httpMethod = ''GET'', path = ''/public'', handler = StaticCached ''etag of /srv/public/README'' ?f ?f \<rparr>"
  let ?q = "\<lparr> httpMethod = ''GET'', path = ''/public/v1'',
              handler = StaticCached ''etag of /srv/public/v1.2/README'' ?g ?g \<rparr>"
  have s: "staticPlugin ?cfg Posix False demoFs [?f] = Inr [?r]"
    by (simp add: string_defs platform_defs static_defs demo_defs Let_def)
  have t: "staticPlugin ?cfg Posix False demoFs [?g] = Inr [?q]"
    by (simp add: string_defs platform_defs static_defs demo_defs Let_def)
  have ig: "\<not> shouldIgnore ?cfg p" for p
    by (simp add: shouldIgnore_def demoConfig_def defaultConfig_def)
  have relf: "replace ?f (assetsDir ?cfg Posix) [] = ''/README''"
    by (simp add: assetsDir_def sep_def demoConfig_def defaultConfig_def)
  have relg: "replace ?g (assetsDir ?cfg Posix) [] = ''/v1'' @ ''.'' @ ''2/README''"
    by (simp add: assetsDir_def sep_def demoConfig_def defaultConfig_def)
  have mp: "mountPrefix ?cfg \<noteq> []"
    by (simp add: mountPrefix_def URL_PATH_SEP_def demoConfig_def defaultConfig_def)
  have ne: "noExtension ?cfg" and md: "alwaysStatic ?cfg \<or> (False \<and> int (length fs) \<le> staticLimit ?cfg)"
    for fs :: "string list"
    by (simp_all add: demoConfig_def defaultConfig_def)
  have nd: "CHR ''.'' \<notin> set ''/README''" "CHR ''.'' \<notin> set ''2/README''"
    by simp_all
  have memf: "?f \<in> set [?f]" and nzf: "?f \<noteq> []" and memg: "?g \<in> set [?g]" and nzg: "?g \<noteq> []"
    by simp_all
  from C10_strip_at_last_dot [OF ne s md memf nzf ig]
  obtain r where r: "r \<in> set [?r]"
    and a: "CHR ''.'' \<notin> set (replace ?f (assetsDir ?cfg Posix) []) \<longrightarrow>
              path r = (if Posix = Posix
                        then (if mountPrefix ?cfg = [] then ''.'' else normalize (mountPrefix ?cfg))
                        else mountPrefix ?cfg)"
    by blast
  from r have "path r = ''/public''" by simp
  with a relf nd(1) mp have 1: "normalize (mountPrefix ?cfg) = ''/public''"
    by simp
  from C10_strip_at_last_dot [OF ne t md memg nzg ig]
  obtain q where q: "q \<in> set [?q]"
    and b: "\<forall>base ext. replace ?g (assetsDir ?cfg Posix) [] = base @ ''.'' @ ext \<and>
              CHR ''.'' \<notin> set ext \<longrightarrow>
              path q = (if Posix = Posix then pathJoin (mountPrefix ?cfg) base
                        else mountPrefix ?cfg @ join ''/'' (split (sepChar Posix) base))"
    by blast
  from q have "path q = ''/public/v1''" by simp
  with b [rule_format, of "''/v1''" "''2/README''"] relg nd(2)
  have 2: "pathJoin (mountPrefix ?cfg) ''/v1'' = ''/public/v1''"
    by simp
  from s t 1 2 show ?thesis by simp
qed

text \<open>
  Claim C10 as stated fails on POSIX for the empty prefix: the file \<^verbatim>\<open>README\<close> has
  no dot, and joining the empty prefix with the empty path gives \<^verbatim>\<open>.\<close>, which is
  not the prefix.
\<close>

theorem C10_empty_prefix_counterexample:
  "staticPlugin (demoConfig\<lparr>alwaysStatic := True, noExtension := True, prefix := []\<rparr>)
       Posix False demoFs [''/srv/public/README'']
     = Inr [\<lparr> httpMethod = ''GET'', path = ''.'',
               handler = StaticCached ''etag of /srv/public/README'' ''/srv/public/README''
                           ''/srv/public/README'' \<rparr>] \<and>
   CHR ''.'' \<notin> set (replace ''/srv/public/README''
      (assetsDir (demoConfig\<lparr>alwaysStatic := True, noExtension := True, prefix := []\<rparr>) Posix) []) \<and>
   ''.'' \<noteq> prefix (demoConfig\<lparr>alwaysStatic := True, noExtension := True, prefix := []\<rparr>)"
  by (simp add: string_defs platform_defs static_defs demo_defs Let_def)

end
